theory Spec2Isabelle
  imports Complex_Main "HOL-Library.Sublist"
begin

section \<open>Data model (types.ts)\<close>

text \<open>
  The engine works on plain JavaScript values. Numbers that the engine treats as
  integers (XP, levels, thresholds, counters, epoch milliseconds) are \<open>int\<close>; the two
  quantities that become fractional (the combo multiplier \<open>1.0 + n * 0.1\<close> and the
  momentum samples \<open>last + xp * 0.5\<close>) are rationals, every double being one. The
  multiplier and the product \<open>baseXp * comboMultiplier\<close> are computed as the source
  computes them, in IEEE 754 double arithmetic (next section): \<open>0.1\<close> is not a double
  and each operation rounds. Sums and differences of integers and the products with
  \<open>1.5\<close> and \<open>0.5\<close> are exact in doubles at the magnitudes of a session (below
  \<open>2^52\<close>) and are written exactly. Interfaces are records with
  the source's field names; the two \<open>id\<close> fields are written \<open>task_id\<close> and \<open>ach_id\<close>
  because \<open>id\<close> is the identity function of HOL. The string-literal union
  \<open>'S' | 'A' | 'B' | 'C'\<close> is a datatype. Icons are the UTF-8 bytes of the source's
  literals.
\<close>

datatype Difficulty = Rank_S | Rank_A | Rank_B | Rank_C

record GameTask =
  task_id :: string
  originalText :: string
  questTitle :: string
  flavorText :: string
  difficulty :: Difficulty
  xp :: int
  completed :: bool

record Achievement =
  ach_id :: string
  icon :: string
  unlockedAt :: "int option"

record Combo =
  count :: int
  multiplier :: rat
  lastCompletionTime :: int

record GameState =
  level :: int
  currentXp :: int
  totalXpNeeded :: int
  completedTasks :: int
  momentum :: "rat list"
  combo :: Combo
  achievements :: "Achievement list"

text \<open>The object literal returned by \<open>processTaskCompletion\<close> on its non-null path.\<close>

record CompletionResult =
  newState :: GameState
  newTasks :: "GameTask list"
  leveledUp :: bool
  xpGained :: int
  achievementsUnlocked :: "Achievement list"
  comboTriggered :: bool

section \<open>JavaScript numbers: IEEE 754 double arithmetic\<close>

text \<open>
  A JavaScript number is a binary64 float: a sign, a 53-bit significand and a power of
  two. A decimal literal denotes the double nearest to it, and \<open>+\<close> and \<open>*\<close> return
  the double nearest to the exact result, ties going to the even significand.
  \<open>round_double\<close> is that rounding on a rational: with \<open>2^e \<le> |x| < 2^(e+1)\<close> the
  doubles around \<open>x\<close> are the multiples of \<open>2^(e-52)\<close>. The exponent is not bounded
  here (no overflow to \<open>Infinity\<close>, no subnormal numbers); the engine's values are far
  from either end. \<open>bit_length n\<close> is the number of binary digits of a positive \<open>n\<close>,
  \<open>ilog2 a\<close> the \<open>e\<close> above for a positive \<open>a\<close>. \<open>Math.floor\<close> of a double is exact and
  is \<open>\<lfloor>_\<rfloor>\<close>.
\<close>

function bit_length :: "int \<Rightarrow> int" where
  "bit_length n = (if n \<le> 0 then 0 else 1 + bit_length (n div 2))"
  by pat_completeness auto
termination
  by (relation "measure nat") auto

function pow2 :: "int \<Rightarrow> rat" where
  "pow2 e = (if e = 0 then 1 else if 0 < e then 2 * pow2 (e - 1) else pow2 (e + 1) / 2)"
  by pat_completeness auto
termination
  by (relation "measure (\<lambda>e. nat \<bar>e\<bar>)") auto

definition ilog2 :: "rat \<Rightarrow> int" where
  "ilog2 a = (if 1 \<le> a then bit_length \<lfloor>a\<rfloor> - 1 else - bit_length (\<lceil>1 / a\<rceil> - 1))"

definition round_half_even :: "rat \<Rightarrow> int" where
  "round_half_even q =
     (let f = \<lfloor>q\<rfloor>; r = q - of_int f
      in if r < 1 / 2 then f else if 1 / 2 < r then f + 1 else if even f then f else f + 1)"

definition round_double :: "rat \<Rightarrow> rat" where
  "round_double x =
     (if x = 0 then 0
      else let a = \<bar>x\<bar>;
               ulp = pow2 (ilog2 a - 52)
           in sgn x * of_int (round_half_even (a / ulp)) * ulp)"

text \<open>The operators \<open>+\<close> and \<open>*\<close> on two doubles.\<close>

definition dadd :: "rat \<Rightarrow> rat \<Rightarrow> rat" where
  "dadd x y = round_double (x + y)"

definition dmul :: "rat \<Rightarrow> rat \<Rightarrow> rat" where
  "dmul x y = round_double (x * y)"

section \<open>IncentiveEngine (lib/IncentiveEngine.ts)\<close>

definition XP_MULTIPLIER :: rat where
  "XP_MULTIPLIER = 3 / 2"

definition MOMENTUM_HISTORY_LIMIT :: nat where
  "MOMENTUM_HISTORY_LIMIT = 20"

definition COMBO_WINDOW_MS :: int where
  "COMBO_WINDOW_MS = 30000"

definition getNextLevelThreshold :: "int \<Rightarrow> int" where
  "getNextLevelThreshold currentThreshold = \<lfloor>of_int currentThreshold * XP_MULTIPLIER\<rfloor>"

text \<open>
  \<open>calculateMomentum\<close> copies the history with the new sample at the end
  (\<open>[...history, newValue]\<close>) and calls \<open>shift()\<close> once on that copy when it is longer
  than the limit: one \<open>if\<close>, one removal from the front.
\<close>

definition calculateMomentum :: "rat list \<Rightarrow> int \<Rightarrow> rat list" where
  "calculateMomentum history xpGain =
     (let lastValue = (if length history > 0 then last history else 0);
          newValue = lastValue + of_int xpGain * (1 / 2);
          newMomentum = history @ [newValue]
      in if length newMomentum > MOMENTUM_HISTORY_LIMIT then tl newMomentum else newMomentum)"

definition icon_FIRST_BLOOD :: string where
  "icon_FIRST_BLOOD = [CHR 0xE2, CHR 0x9A, CHR 0x94, CHR 0xEF, CHR 0xB8, CHR 0x8F]"

definition icon_COMBO_MASTER :: string where
  "icon_COMBO_MASTER = [CHR 0xF0, CHR 0x9F, CHR 0x94, CHR 0xA5]"

definition icon_LEGENDARY :: string where
  "icon_LEGENDARY = [CHR 0xF0, CHR 0x9F, CHR 0x91, CHR 0x91]"

definition icon_VETERAN :: string where
  "icon_VETERAN = [CHR 0xF0, CHR 0x9F, CHR 0x8E, CHR 0x96, CHR 0xEF, CHR 0xB8, CHR 0x8F]"

text \<open>
  \<open>checkAchievements\<close>: four \<open>if\<close> statements in sequence, each pushing onto
  \<open>newUnlocks\<close>; \<open>currentIds\<close> is the set of ids of \<open>state.achievements\<close>.
\<close>

definition checkAchievements ::
  "GameState \<Rightarrow> GameTask \<Rightarrow> bool \<Rightarrow> int \<Rightarrow> Achievement list" where
  "checkAchievements state task isFirstTask timestamp =
     (let currentIds = set (map ach_id (achievements state));
          newUnlocks = [];
          newUnlocks = (if isFirstTask \<and> ''FIRST_BLOOD'' \<notin> currentIds
             then newUnlocks @ [\<lparr>ach_id = ''FIRST_BLOOD'', icon = icon_FIRST_BLOOD,
                                 unlockedAt = Some timestamp\<rparr>]
             else newUnlocks);
          newUnlocks = (if count (combo state) \<ge> 3 \<and> ''COMBO_MASTER'' \<notin> currentIds
             then newUnlocks @ [\<lparr>ach_id = ''COMBO_MASTER'', icon = icon_COMBO_MASTER,
                                 unlockedAt = Some timestamp\<rparr>]
             else newUnlocks);
          newUnlocks = (if difficulty task = Rank_S \<and> ''LEGENDARY'' \<notin> currentIds
             then newUnlocks @ [\<lparr>ach_id = ''LEGENDARY'', icon = icon_LEGENDARY,
                                 unlockedAt = Some timestamp\<rparr>]
             else newUnlocks);
          newUnlocks = (if level state \<ge> 3 \<and> ''VETERAN'' \<notin> currentIds
             then newUnlocks @ [\<lparr>ach_id = ''VETERAN'', icon = icon_VETERAN,
                                 unlockedAt = Some timestamp\<rparr>]
             else newUnlocks)
      in newUnlocks)"

text \<open>
  \<open>processTaskCompletion\<close>. The optional parameter \<open>timestampOverride\<close> is an
  \<open>int option\<close> (\<open>None\<close> for an omitted argument) and the reading of the wall clock,
  \<open>Date.now()\<close>, is the extra argument \<open>dateNow\<close>: \<open>timestampOverride ?? Date.now()\<close>
  takes the clock only when the argument is absent. The \<open>null\<close> result is \<open>None\<close>.
  The two \<open>if\<close> statements that assign several variables at once are tuple-valued
  conditionals. \<open>1.0 + (comboCount * 0.1)\<close> and \<open>baseXp * comboMultiplier\<close> are the
  double operations, the literal \<open>0.1\<close> the double nearest to one tenth.
\<close>

definition processTaskCompletion ::
  "string \<Rightarrow> GameTask list \<Rightarrow> GameState \<Rightarrow> int option \<Rightarrow> int \<Rightarrow> CompletionResult option" where
  "processTaskCompletion taskId currentTasks currentState timestampOverride dateNow =
     (case find (\<lambda>t. task_id t = taskId) currentTasks of
        None \<Rightarrow> None
      | Some task \<Rightarrow>
          if completed task then None
          else
            (let newTasks = map (\<lambda>t. if task_id t = taskId then t\<lparr>completed := True\<rparr> else t)
                              currentTasks;
                 isFirstTask = (completedTasks currentState = 0);
                 now = (case timestampOverride of Some t \<Rightarrow> t | None \<Rightarrow> dateNow);
                 timeDiff = now - lastCompletionTime (combo currentState);
                 (comboCount, comboMultiplier) =
                   (if timeDiff < COMBO_WINDOW_MS \<and> lastCompletionTime (combo currentState) > 0
                    then (count (combo currentState) + 1,
                          dadd 1 (dmul (of_int (count (combo currentState) + 1))
                                       (round_double (1 / 10))))
                    else (1, 1));
                 baseXp = xp task;
                 finalXp = \<lfloor>dmul (of_int baseXp) comboMultiplier\<rfloor>;
                 newXp = currentXp currentState + finalXp;
                 (newXp, newLevel, newTotalNeeded, leveledUp) =
                   (if newXp \<ge> totalXpNeeded currentState
                    then (newXp - totalXpNeeded currentState,
                          level currentState + 1,
                          getNextLevelThreshold (totalXpNeeded currentState),
                          True)
                    else (newXp, level currentState, totalXpNeeded currentState, False));
                 newMomentum = calculateMomentum (momentum currentState) finalXp;
                 intermediateState = currentState
                   \<lparr>level := newLevel,
                    currentXp := newXp,
                    totalXpNeeded := newTotalNeeded,
                    completedTasks := completedTasks currentState + 1,
                    momentum := newMomentum,
                    combo := \<lparr>count = comboCount, multiplier = comboMultiplier,
                               lastCompletionTime = now\<rparr>\<rparr>;
                 newAchievements = checkAchievements intermediateState task isFirstTask now;
                 finalAchievements = achievements currentState @ newAchievements;
                 finalState = intermediateState\<lparr>achievements := finalAchievements\<rparr>
             in Some \<lparr>newState = finalState,
                       newTasks = newTasks,
                       leveledUp = leveledUp,
                       xpGained = finalXp,
                       achievementsUnlocked = newAchievements,
                       comboTriggered = (comboCount > 1)\<rparr>))"

definition createInitialState :: GameState where
  "createInitialState =
     \<lparr>level = 1,
      currentXp = 0,
      totalXpNeeded = 1000,
      completedTasks = 0,
      momentum = [0, 100, 150, 120, 200],
      combo = \<lparr>count = 0, multiplier = 1, lastCompletionTime = 0\<rparr>,
      achievements = []\<rparr>"

section \<open>The test bench's task constructor (components/LibraryTestBench.tsx)\<close>

definition difficulty_letter :: "Difficulty \<Rightarrow> string" where
  "difficulty_letter d =
     (case d of Rank_S \<Rightarrow> ''S'' | Rank_A \<Rightarrow> ''A'' | Rank_B \<Rightarrow> ''B'' | Rank_C \<Rightarrow> ''C'')"

definition createDummyTask :: "string \<Rightarrow> Difficulty \<Rightarrow> int \<Rightarrow> GameTask" where
  "createDummyTask i diff x =
     \<lparr>task_id = i,
      originalText = ''Test Task '' @ difficulty_letter diff,
      questTitle = ''Operation '' @ difficulty_letter diff,
      flavorText = ''Simulation running...'',
      difficulty = diff,
      xp = x,
      completed = False\<rparr>"

section \<open>Sample snapshots\<close>

text \<open>
  The snapshot after two chained completions of 100 XP tasks at 1000 ms and 6000 ms
  from the initial state (combo count 2, last completion at 6000 ms). The multipliers
  of the samples are doubles: \<open>5404319552844595 / 2^52\<close> is the value of
  \<open>1.0 + 2 * 0.1\<close> (printed \<open>1.2\<close>) and \<open>5854679515581645 / 2^52\<close> that of
  \<open>1.0 + 3 * 0.1\<close> (printed \<open>1.3\<close>).
\<close>

definition chainedState :: GameState where
  "chainedState =
     \<lparr>level = 1,
      currentXp = 220,
      totalXpNeeded = 1000,
      completedTasks = 2,
      momentum = [0, 100, 150, 120, 200, 250, 310],
      combo = \<lparr>count = 2, multiplier = 5404319552844595 / 4503599627370496, lastCompletionTime = 6000\<rparr>,
      achievements =
        [\<lparr>ach_id = ''FIRST_BLOOD'', icon = icon_FIRST_BLOOD, unlockedAt = Some 1000\<rparr>]\<rparr>"

text \<open>
  A snapshot on the brink of everything: nothing completed yet, a running chain of
  two, level 2 and 50 XP short of the next level.
\<close>

definition brinkState :: GameState where
  "brinkState =
     \<lparr>level = 2,
      currentXp = 950,
      totalXpNeeded = 1000,
      completedTasks = 0,
      momentum = [],
      combo = \<lparr>count = 2, multiplier = 5404319552844595 / 4503599627370496, lastCompletionTime = 1000\<rparr>,
      achievements = []\<rparr>"

text \<open>What the engine returns for two of the calls used below.\<close>

definition brinkResult :: CompletionResult where
  "brinkResult =
     \<lparr>newState =
        \<lparr>level = 3, currentXp = 80, totalXpNeeded = 1500, completedTasks = 1,
         momentum = [65],
         combo = \<lparr>count = 3, multiplier = 5854679515581645 / 4503599627370496, lastCompletionTime = 2000\<rparr>,
         achievements =
           [\<lparr>ach_id = ''FIRST_BLOOD'', icon = icon_FIRST_BLOOD, unlockedAt = Some 2000\<rparr>,
            \<lparr>ach_id = ''COMBO_MASTER'', icon = icon_COMBO_MASTER, unlockedAt = Some 2000\<rparr>,
            \<lparr>ach_id = ''LEGENDARY'', icon = icon_LEGENDARY, unlockedAt = Some 2000\<rparr>,
            \<lparr>ach_id = ''VETERAN'', icon = icon_VETERAN, unlockedAt = Some 2000\<rparr>]\<rparr>,
      newTasks = [(createDummyTask ''t3'' Rank_S 100)\<lparr>completed := True\<rparr>],
      leveledUp = True,
      xpGained = 130,
      achievementsUnlocked =
        [\<lparr>ach_id = ''FIRST_BLOOD'', icon = icon_FIRST_BLOOD, unlockedAt = Some 2000\<rparr>,
         \<lparr>ach_id = ''COMBO_MASTER'', icon = icon_COMBO_MASTER, unlockedAt = Some 2000\<rparr>,
         \<lparr>ach_id = ''LEGENDARY'', icon = icon_LEGENDARY, unlockedAt = Some 2000\<rparr>,
         \<lparr>ach_id = ''VETERAN'', icon = icon_VETERAN, unlockedAt = Some 2000\<rparr>],
      comboTriggered = True\<rparr>"

definition chainedResult :: CompletionResult where
  "chainedResult =
     \<lparr>newState =
        \<lparr>level = 1, currentXp = 350, totalXpNeeded = 1000, completedTasks = 3,
         momentum = [0, 100, 150, 120, 200, 250, 310, 375],
         combo = \<lparr>count = 3, multiplier = 5854679515581645 / 4503599627370496, lastCompletionTime = 7000\<rparr>,
         achievements =
           [\<lparr>ach_id = ''FIRST_BLOOD'', icon = icon_FIRST_BLOOD, unlockedAt = Some 1000\<rparr>,
            \<lparr>ach_id = ''COMBO_MASTER'', icon = icon_COMBO_MASTER, unlockedAt = Some 7000\<rparr>]\<rparr>,
      newTasks = [(createDummyTask ''t3'' Rank_B 100)\<lparr>completed := True\<rparr>],
      leveledUp = False,
      xpGained = 130,
      achievementsUnlocked =
        [\<lparr>ach_id = ''COMBO_MASTER'', icon = icon_COMBO_MASTER, unlockedAt = Some 7000\<rparr>],
      comboTriggered = True\<rparr>"

section \<open>Reachable snapshots\<close>

text \<open>
  The snapshots a session can reach: the initial one, and the new snapshot of any
  non-null completion from a reachable one, on a task list whose tasks have positive XP
  and pairwise different ids.
\<close>

inductive reachable :: "GameState \<Rightarrow> bool" where
  initial: "reachable createInitialState"
| completion:
    "reachable s \<Longrightarrow>
     list_all (\<lambda>t. 0 < xp t) tasks \<Longrightarrow>
     distinct (map task_id tasks) \<Longrightarrow>
     processTaskCompletion taskId tasks s ts dateNow = Some r \<Longrightarrow>
     reachable (newState r)"

section \<open>The loops as the specification words them\<close>

text \<open>
  The specification describes leveling as a loop: while the provisional XP is at least
  the threshold, subtract the threshold, add one to the level and replace the threshold
  by \<open>floor (threshold * 1.5)\<close>; \<open>leveledUp\<close> records whether the body ran. The loop need
  not end (with a threshold of 0 and XP that is not negative it never does), so it
  returns an \<open>option\<close>. It is used only to compare the engine with it.
\<close>

partial_function (option) levelingLoop_spec ::
  "int \<Rightarrow> int \<Rightarrow> int \<Rightarrow> bool \<Rightarrow> (int \<times> int \<times> int \<times> bool) option" where
  "levelingLoop_spec provisionalXp lvl threshold leveled =
     (if provisionalXp \<ge> threshold
      then levelingLoop_spec (provisionalXp - threshold) (lvl + 1)
             \<lfloor>of_int threshold * (3 / 2 :: rat)\<rfloor> True
      else Some (provisionalXp, lvl, threshold, leveled))"



section \<open>Sample inputs for the loops\<close>



text \<open>The result of completing a 2500 XP task at 1000 ms from the initial state.\<close>

definition overflowResult :: CompletionResult where
  "overflowResult =
     \<lparr>newState =
        \<lparr>level = 2, currentXp = 1500, totalXpNeeded = 1500, completedTasks = 1,
         momentum = [0, 100, 150, 120, 200, 1450],
         combo = \<lparr>count = 1, multiplier = 1, lastCompletionTime = 1000\<rparr>,
         achievements =
           [\<lparr>ach_id = ''FIRST_BLOOD'', icon = icon_FIRST_BLOOD, unlockedAt = Some 1000\<rparr>]\<rparr>,
      newTasks = [(createDummyTask ''t1'' Rank_B 2500)\<lparr>completed := True\<rparr>],
      leveledUp = True,
      xpGained = 2500,
      achievementsUnlocked =
        [\<lparr>ach_id = ''FIRST_BLOOD'', icon = icon_FIRST_BLOOD, unlockedAt = Some 1000\<rparr>],
      comboTriggered = False\<rparr>"

section \<open>The engine on an explicit store\<close>

text \<open>
  Whether the engine changes its inputs is a question about objects and arrays, not about
  values, so the engine is modelled a second time on a store. Every JavaScript object
  and array is a cell; an address is an index into the store; allocating appends a cell;
  object and array fields that hold objects hold addresses. \<open>{...t, completed: true}\<close>
  allocates a new task cell, \<open>[...xs, ...ys]\<close> a new array cell that shares the
  elements, and \<open>shift()\<close> and \<open>push()\<close> overwrite the array cell they are called on.
  An operation returns \<open>None\<close> when it reads an address that holds no cell of the
  expected kind (a store that does not fit the TypeScript types). The set
  \<open>currentIds\<close> and the array it is built from never leave \<open>checkAchievements\<close> and are
  kept as values.
\<close>

type_synonym addr = nat

datatype cell =
    TaskCell GameTask
  | TaskArray "addr list"
  | NumberArray "rat list"
  | ComboCell Combo
  | AchievementCell Achievement
  | AchievementArray "addr list"
  | StateCell int int int int addr addr addr
  | ResultCell addr addr bool int addr bool

type_synonym store = "cell list"

type_synonym 'a heap_op = "store \<Rightarrow> ('a \<times> store) option"

definition return_h :: "'a \<Rightarrow> 'a heap_op" where
  "return_h x = (\<lambda>h. Some (x, h))"

definition fail_h :: "'a heap_op" where
  "fail_h = (\<lambda>h. None)"

definition bind_h :: "'a heap_op \<Rightarrow> ('a \<Rightarrow> 'b heap_op) \<Rightarrow> 'b heap_op" where
  "bind_h m f = (\<lambda>h. case m h of None \<Rightarrow> None | Some (x, h') \<Rightarrow> f x h')"

definition alloc_h :: "cell \<Rightarrow> addr heap_op" where
  "alloc_h c = (\<lambda>h. Some (length h, h @ [c]))"

definition read_h :: "addr \<Rightarrow> cell heap_op" where
  "read_h a = (\<lambda>h. if a < length h then Some (h ! a, h) else None)"

definition write_h :: "addr \<Rightarrow> cell \<Rightarrow> unit heap_op" where
  "write_h a c = (\<lambda>h. if a < length h then Some ((), h[a := c]) else None)"

definition get_task :: "addr \<Rightarrow> GameTask heap_op" where
  "get_task a = bind_h (read_h a) (\<lambda>c. case c of TaskCell t \<Rightarrow> return_h t | _ \<Rightarrow> fail_h)"

definition get_task_array :: "addr \<Rightarrow> addr list heap_op" where
  "get_task_array a = bind_h (read_h a) (\<lambda>c. case c of TaskArray rs \<Rightarrow> return_h rs | _ \<Rightarrow> fail_h)"

definition get_numbers :: "addr \<Rightarrow> rat list heap_op" where
  "get_numbers a = bind_h (read_h a) (\<lambda>c. case c of NumberArray xs \<Rightarrow> return_h xs | _ \<Rightarrow> fail_h)"

definition get_combo :: "addr \<Rightarrow> Combo heap_op" where
  "get_combo a = bind_h (read_h a) (\<lambda>c. case c of ComboCell x \<Rightarrow> return_h x | _ \<Rightarrow> fail_h)"

definition get_achievement :: "addr \<Rightarrow> Achievement heap_op" where
  "get_achievement a =
     bind_h (read_h a) (\<lambda>c. case c of AchievementCell x \<Rightarrow> return_h x | _ \<Rightarrow> fail_h)"

definition get_achievement_array :: "addr \<Rightarrow> addr list heap_op" where
  "get_achievement_array a =
     bind_h (read_h a) (\<lambda>c. case c of AchievementArray rs \<Rightarrow> return_h rs | _ \<Rightarrow> fail_h)"

definition get_state :: "addr \<Rightarrow> (int \<times> int \<times> int \<times> int \<times> addr \<times> addr \<times> addr) heap_op" where
  "get_state a =
     bind_h (read_h a) (\<lambda>c. case c of
        StateCell lv cx need cnt mo co ac \<Rightarrow> return_h (lv, cx, need, cnt, mo, co, ac)
      | _ \<Rightarrow> fail_h)"

text \<open>
  The array methods as the engine calls them: \<open>find\<close> with \<open>t => t.id === taskId\<close>
  returns the address of the first match; \<open>map\<close> with
  \<open>t => t.id === taskId ? { ...t, completed: true } : t\<close> yields the addresses of the new
  array's elements, a fresh cell for a match and the old address otherwise (the array
  cell itself is allocated where \<open>processTaskCompletion\<close> binds \<open>newTasks\<close>); \<open>map\<close> with
  \<open>a => a.id\<close> yields the ids. \<open>shift\<close> and \<open>push\<close> write to the array they are called on.
\<close>

fun find_h :: "string \<Rightarrow> addr list \<Rightarrow> addr option heap_op" where
  "find_h taskId [] = return_h None"
| "find_h taskId (a # as) =
     bind_h (get_task a) (\<lambda>t.
       if task_id t = taskId then return_h (Some a) else find_h taskId as)"

fun map_completed_h :: "string \<Rightarrow> addr list \<Rightarrow> addr list heap_op" where
  "map_completed_h taskId [] = return_h []"
| "map_completed_h taskId (a # as) =
     bind_h (get_task a) (\<lambda>t.
     bind_h (if task_id t = taskId then alloc_h (TaskCell (t\<lparr>completed := True\<rparr>))
             else return_h a) (\<lambda>b.
     bind_h (map_completed_h taskId as) (\<lambda>bs.
     return_h (b # bs))))"

fun map_ids_h :: "addr list \<Rightarrow> string list heap_op" where
  "map_ids_h [] = return_h []"
| "map_ids_h (a # as) =
     bind_h (get_achievement a) (\<lambda>x.
     bind_h (map_ids_h as) (\<lambda>ids.
     return_h (ach_id x # ids)))"

definition shift_h :: "addr \<Rightarrow> unit heap_op" where
  "shift_h arr = bind_h (get_numbers arr) (\<lambda>xs. write_h arr (NumberArray (tl xs)))"

definition push_h :: "addr \<Rightarrow> addr \<Rightarrow> unit heap_op" where
  "push_h arr a =
     bind_h (get_achievement_array arr) (\<lambda>rs. write_h arr (AchievementArray (rs @ [a])))"

definition calculateMomentum_h :: "addr \<Rightarrow> int \<Rightarrow> addr heap_op" where
  "calculateMomentum_h history xpGain =
     bind_h (get_numbers history) (\<lambda>hs.
     let lastValue = (if length hs > 0 then last hs else 0);
         newValue = lastValue + of_int xpGain * (1 / 2)
     in
     bind_h (alloc_h (NumberArray (hs @ [newValue]))) (\<lambda>newMomentum.
     bind_h (get_numbers newMomentum) (\<lambda>nm.
     bind_h (if length nm > MOMENTUM_HISTORY_LIMIT then shift_h newMomentum
             else return_h ()) (\<lambda>_.
     return_h newMomentum))))"

definition push_new_h :: "addr \<Rightarrow> Achievement \<Rightarrow> unit heap_op" where
  "push_new_h newUnlocks a = bind_h (alloc_h (AchievementCell a)) (\<lambda>r. push_h newUnlocks r)"

definition checkAchievements_h :: "addr \<Rightarrow> addr \<Rightarrow> bool \<Rightarrow> int \<Rightarrow> addr heap_op" where
  "checkAchievements_h state task isFirstTask timestamp =
     bind_h (alloc_h (AchievementArray [])) (\<lambda>newUnlocks.
     bind_h (get_state state) (\<lambda>(lv, cx, need, cnt, mo, co, ac).
     bind_h (get_achievement_array ac) (\<lambda>achs.
     bind_h (map_ids_h achs) (\<lambda>ids.
     let currentIds = set ids in
     bind_h (if isFirstTask \<and> ''FIRST_BLOOD'' \<notin> currentIds
             then push_new_h newUnlocks \<lparr>ach_id = ''FIRST_BLOOD'', icon = icon_FIRST_BLOOD,
                                         unlockedAt = Some timestamp\<rparr>
             else return_h ()) (\<lambda>_.
     bind_h (get_combo co) (\<lambda>c.
     bind_h (if count c \<ge> 3 \<and> ''COMBO_MASTER'' \<notin> currentIds
             then push_new_h newUnlocks \<lparr>ach_id = ''COMBO_MASTER'', icon = icon_COMBO_MASTER,
                                         unlockedAt = Some timestamp\<rparr>
             else return_h ()) (\<lambda>_.
     bind_h (get_task task) (\<lambda>t.
     bind_h (if difficulty t = Rank_S \<and> ''LEGENDARY'' \<notin> currentIds
             then push_new_h newUnlocks \<lparr>ach_id = ''LEGENDARY'', icon = icon_LEGENDARY,
                                         unlockedAt = Some timestamp\<rparr>
             else return_h ()) (\<lambda>_.
     bind_h (if lv \<ge> 3 \<and> ''VETERAN'' \<notin> currentIds
             then push_new_h newUnlocks \<lparr>ach_id = ''VETERAN'', icon = icon_VETERAN,
                                         unlockedAt = Some timestamp\<rparr>
             else return_h ()) (\<lambda>_.
     return_h newUnlocks))))))))))"

definition processTaskCompletion_h ::
  "string \<Rightarrow> addr \<Rightarrow> addr \<Rightarrow> int option \<Rightarrow> int \<Rightarrow> addr option heap_op" where
  "processTaskCompletion_h taskId currentTasks currentState timestampOverride dateNow =
     bind_h (get_task_array currentTasks) (\<lambda>refs.
     bind_h (find_h taskId refs) (\<lambda>found.
     case found of
       None \<Rightarrow> return_h None
     | Some task \<Rightarrow>
     bind_h (get_task task) (\<lambda>t.
     if completed t then return_h None
     else
     bind_h (map_completed_h taskId refs) (\<lambda>newRefs.
     bind_h (alloc_h (TaskArray newRefs)) (\<lambda>newTasks.
     bind_h (get_state currentState) (\<lambda>(lv, cx, need, cnt, mo, co, ac).
     bind_h (get_combo co) (\<lambda>c.
     let isFirstTask = (cnt = 0);
         now = (case timestampOverride of Some ts \<Rightarrow> ts | None \<Rightarrow> dateNow);
         timeDiff = now - lastCompletionTime c;
         (comboCount, comboMultiplier) =
           (if timeDiff < COMBO_WINDOW_MS \<and> lastCompletionTime c > 0
            then (count c + 1, dadd 1 (dmul (of_int (count c + 1)) (round_double (1 / 10))))
            else (1, 1));
         baseXp = xp t;
         finalXp = \<lfloor>dmul (of_int baseXp) comboMultiplier\<rfloor>;
         newXp = cx + finalXp;
         (newXp, newLevel, newTotalNeeded, leveledUp) =
           (if newXp \<ge> need
            then (newXp - need, lv + 1, getNextLevelThreshold need, True)
            else (newXp, lv, need, False))
     in
     bind_h (calculateMomentum_h mo finalXp) (\<lambda>newMomentum.
     bind_h (alloc_h (ComboCell \<lparr>count = comboCount, multiplier = comboMultiplier,
                                 lastCompletionTime = now\<rparr>)) (\<lambda>newCombo.
     bind_h (alloc_h (StateCell newLevel newXp newTotalNeeded (cnt + 1)
                        newMomentum newCombo ac)) (\<lambda>intermediateState.
     bind_h (checkAchievements_h intermediateState task isFirstTask now) (\<lambda>newAchievements.
     bind_h (get_achievement_array ac) (\<lambda>olds.
     bind_h (get_achievement_array newAchievements) (\<lambda>news.
     bind_h (alloc_h (AchievementArray (olds @ news))) (\<lambda>finalAchievements.
     bind_h (alloc_h (StateCell newLevel newXp newTotalNeeded (cnt + 1)
                        newMomentum newCombo finalAchievements)) (\<lambda>finalState.
     bind_h (alloc_h (ResultCell finalState newTasks leveledUp finalXp newAchievements
                        (comboCount > 1))) (\<lambda>result.
     return_h (Some result)))))))))))))))))"

text \<open>
  Reading values back out of a store: the task list behind an array address, the
  snapshot behind a state address, the completion result behind a result address.
\<close>

definition cell_at :: "store \<Rightarrow> addr \<Rightarrow> cell option" where
  "cell_at h a = (if a < length h then Some (h ! a) else None)"

fun tasks_at :: "store \<Rightarrow> addr list \<Rightarrow> GameTask list option" where
  "tasks_at h [] = Some []"
| "tasks_at h (a # as) =
     (case cell_at h a of
        Some (TaskCell t) \<Rightarrow> map_option ((#) t) (tasks_at h as)
      | _ \<Rightarrow> None)"

definition task_list_at :: "store \<Rightarrow> addr \<Rightarrow> GameTask list option" where
  "task_list_at h a = (case cell_at h a of Some (TaskArray rs) \<Rightarrow> tasks_at h rs | _ \<Rightarrow> None)"

fun achievements_at :: "store \<Rightarrow> addr list \<Rightarrow> Achievement list option" where
  "achievements_at h [] = Some []"
| "achievements_at h (a # as) =
     (case cell_at h a of
        Some (AchievementCell x) \<Rightarrow> map_option ((#) x) (achievements_at h as)
      | _ \<Rightarrow> None)"

definition achievement_list_at :: "store \<Rightarrow> addr \<Rightarrow> Achievement list option" where
  "achievement_list_at h a =
     (case cell_at h a of Some (AchievementArray rs) \<Rightarrow> achievements_at h rs | _ \<Rightarrow> None)"

definition state_at :: "store \<Rightarrow> addr \<Rightarrow> GameState option" where
  "state_at h a =
     (case cell_at h a of
        Some (StateCell lv cx need cnt mo co ac) \<Rightarrow>
          (case (cell_at h mo, cell_at h co, achievement_list_at h ac) of
             (Some (NumberArray ms), Some (ComboCell c), Some achs) \<Rightarrow>
               Some \<lparr>level = lv, currentXp = cx, totalXpNeeded = need, completedTasks = cnt,
                     momentum = ms, combo = c, achievements = achs\<rparr>
           | _ \<Rightarrow> None)
      | _ \<Rightarrow> None)"

definition result_at :: "store \<Rightarrow> addr \<Rightarrow> CompletionResult option" where
  "result_at h a =
     (case cell_at h a of
        Some (ResultCell st ts lu xg au ct) \<Rightarrow>
          (case (state_at h st, task_list_at h ts, achievement_list_at h au) of
             (Some s, Some tasks, Some achs) \<Rightarrow>
               Some \<lparr>newState = s, newTasks = tasks, leveledUp = lu, xpGained = xg,
                     achievementsUnlocked = achs, comboTriggered = ct\<rparr>
           | _ \<Rightarrow> None)
      | _ \<Rightarrow> None)"

text \<open>
  The store after \<open>checkAchievements\<close> ran from store \<open>h\<close> and unlocked \<open>xs\<close>: the array
  \<open>newUnlocks\<close> at address \<open>length h\<close>, then one cell per unlocked achievement.
\<close>

definition fresh_refs :: "addr \<Rightarrow> nat \<Rightarrow> addr list" where
  "fresh_refs base n = map ((+) base) [0..<n]"

definition unlock_store :: "store \<Rightarrow> Achievement list \<Rightarrow> store" where
  "unlock_store h xs =
     h @ AchievementArray (fresh_refs (Suc (length h)) (length xs)) # map AchievementCell xs"

text \<open>A store holding the initial snapshot and a list of two open tasks.\<close>

definition sampleTasks :: "GameTask list" where
  "sampleTasks = [createDummyTask ''t1'' Rank_B 100, createDummyTask ''t2'' Rank_S 500]"

definition sampleStore :: store where
  "sampleStore =
     [TaskCell (createDummyTask ''t1'' Rank_B 100),
      TaskCell (createDummyTask ''t2'' Rank_S 500),
      TaskArray [0, 1],
      NumberArray [0, 100, 150, 120, 200],
      ComboCell \<lparr>count = 0, multiplier = 1, lastCompletionTime = 0\<rparr>,
      AchievementArray [],
      StateCell 1 0 1000 0 3 4 5]"

text \<open>A task list in which the id \<open>t1\<close> occurs twice.\<close>

definition duplicateTasks :: "GameTask list" where
  "duplicateTasks =
     [createDummyTask ''t1'' Rank_B 100, createDummyTask ''t2'' Rank_B 100,
      createDummyTask ''t1'' Rank_A 300]"

section \<open>Double arithmetic\<close>

declare bit_length.simps [simp del] pow2.simps [simp del]

lemma pow2_pos: "0 < pow2 e"
proof (induction e rule: pow2.induct)
  case (1 e)
  then show ?case by (subst pow2.simps) auto
qed

lemma round_half_even_nonneg: "0 \<le> q \<Longrightarrow> 0 \<le> round_half_even q"
  by (auto simp: round_half_even_def Let_def)

lemma round_double_nonneg: "0 \<le> x \<Longrightarrow> 0 \<le> round_double x"
proof (cases "x = 0")
  case True
  then show ?thesis by (simp add: round_double_def)
next
  case False
  assume "0 \<le> x"
  with False have x: "0 < x" by simp
  have "0 \<le> x / pow2 (ilog2 x - 52)" using x pow2_pos[of "ilog2 x - 52"] by simp
  then have "0 \<le> round_half_even (x / pow2 (ilog2 x - 52))" by (rule round_half_even_nonneg)
  then show ?thesis
    using x pow2_pos[of "ilog2 x - 52"] by (simp add: round_double_def Let_def)
qed

lemma dmul_nonneg: "0 \<le> x \<Longrightarrow> 0 \<le> y \<Longrightarrow> 0 \<le> dmul x y"
  by (simp add: dmul_def round_double_nonneg)

lemma dadd_nonneg: "0 \<le> x \<Longrightarrow> 0 \<le> y \<Longrightarrow> 0 \<le> dadd x y"
  by (simp add: dadd_def round_double_nonneg)

text \<open>
  The literal \<open>0.1\<close> and the multipliers of chain lengths 2, 3 and 4 as the engine holds
  them (printed \<open>1.2\<close>, \<open>1.3\<close> and \<open>1.4\<close>; the last lies below \<open>14 / 10\<close>).
\<close>

lemma double_0_1: "round_double (1 / 10) = 3602879701896397 / 36028797018963968"
  by code_simp

lemma comboMultiplier_2:
  "dadd 1 (dmul 2 (round_double (1 / 10))) = 5404319552844595 / 4503599627370496"
  by code_simp


lemma comboMultiplier_4:
  "dadd 1 (dmul 4 (round_double (1 / 10))) = 3152519739159347 / 2251799813685248"
  by code_simp

text \<open>
  Three awards, as the running engine gives them: 130 for 100 XP at chain length 3, 62 for
  45 XP at chain length 4 and 229 for 100 XP at chain length 13 (exact arithmetic on
  the multipliers \<open>13 / 10\<close>, \<open>14 / 10\<close> and \<open>23 / 10\<close> gives 130, 63 and 230).
\<close>

lemma finalXp_100_at_3: "dmul 100 (5854679515581645 / 4503599627370496) = 130"
  by code_simp

lemma finalXp_45_at_4: "\<lfloor>dmul 45 (dadd 1 (dmul 4 (round_double (1 / 10))))\<rfloor> = 62"
  by code_simp

lemma finalXp_100_at_13: "\<lfloor>dmul 100 (dadd 1 (dmul 13 (round_double (1 / 10))))\<rfloor> = 229"
  by code_simp

section \<open>Looking a task up and marking it\<close>

lemma find_task_SomeD:
  "find (\<lambda>t. task_id t = taskId) tasks = Some task \<Longrightarrow>
   task \<in> set tasks \<and> task_id task = taskId"
  by (induction tasks) (auto split: if_splits)

lemma find_task_None:
  "find (\<lambda>t. task_id t = taskId) tasks = None \<Longrightarrow> \<forall>t \<in> set tasks. task_id t \<noteq> taskId"
  by (induction tasks) (auto split: if_splits)

lemma find_map_completed:
  "find (\<lambda>t. task_id t = taskId) tasks = Some task \<Longrightarrow>
   find (\<lambda>t. task_id t = taskId)
     (map (\<lambda>t. if task_id t = taskId then t\<lparr>completed := True\<rparr> else t) tasks)
     = Some (task\<lparr>completed := True\<rparr>)"
  by (induction tasks) (auto split: if_splits)

section \<open>The shape of a non-null result\<close>

lemma processTaskCompletion_Some_task:
  assumes "processTaskCompletion taskId tasks s ts dateNow = Some r"
  obtains task where "find (\<lambda>t. task_id t = taskId) tasks = Some task" and "\<not> completed task"
  using assms
  by (cases "find (\<lambda>t. task_id t = taskId) tasks")
     (auto simp: processTaskCompletion_def split: if_splits)

lemma processTaskCompletion_found:
  fixes s :: GameState and ts :: "int option" and dateNow :: int and task :: GameTask
  assumes f: "find (\<lambda>t. task_id t = taskId) tasks = Some task" and nc: "\<not> completed task"
  defines "now \<equiv> (case ts of Some t \<Rightarrow> t | None \<Rightarrow> dateNow)"
  defines "chained \<equiv> now - lastCompletionTime (combo s) < COMBO_WINDOW_MS
                       \<and> lastCompletionTime (combo s) > 0"
  defines "cc \<equiv> (if chained then count (combo s) + 1 else 1)"
  defines "cm \<equiv> (if chained
                  then dadd 1 (dmul (of_int (count (combo s) + 1)) (round_double (1 / 10)))
                  else 1)"
  defines "fx \<equiv> \<lfloor>dmul (of_int (xp task)) cm\<rfloor>"
  defines "lv \<equiv> currentXp s + fx \<ge> totalXpNeeded s"
  defines "im \<equiv> s\<lparr>level := (if lv then level s + 1 else level s),
                   currentXp := (if lv then currentXp s + fx - totalXpNeeded s
                                 else currentXp s + fx),
                   totalXpNeeded := (if lv then getNextLevelThreshold (totalXpNeeded s)
                                     else totalXpNeeded s),
                   completedTasks := completedTasks s + 1,
                   momentum := calculateMomentum (momentum s) fx,
                   combo := \<lparr>count = cc, multiplier = cm, lastCompletionTime = now\<rparr>\<rparr>"
  defines "na \<equiv> checkAchievements im task (completedTasks s = 0) now"
  shows "processTaskCompletion taskId tasks s ts dateNow =
           Some \<lparr>newState = im\<lparr>achievements := achievements s @ na\<rparr>,
                 newTasks = map (\<lambda>t. if task_id t = taskId then t\<lparr>completed := True\<rparr> else t)
                              tasks,
                 leveledUp = lv,
                 xpGained = fx,
                 achievementsUnlocked = na,
                 comboTriggered = (cc > 1)\<rparr>"
  unfolding processTaskCompletion_def na_def im_def lv_def fx_def cm_def cc_def chained_def now_def
  using f nc by (simp add: Let_def)

lemma processTaskCompletion_unlocks:
  assumes "processTaskCompletion taskId tasks s ts dateNow = Some r"
      and f: "find (\<lambda>t. task_id t = taskId) tasks = Some task"
  shows "achievementsUnlocked r =
           checkAchievements ((newState r)\<lparr>achievements := achievements s\<rparr>) task
             (completedTasks s = 0) (case ts of Some t \<Rightarrow> t | None \<Rightarrow> dateNow)"
    and "achievements (newState r) = achievements s @ achievementsUnlocked r"
proof -
  from assms obtain nc: "\<not> completed task"
    by (auto simp: processTaskCompletion_def split: if_splits)
  from assms(1) have r: "r = the (processTaskCompletion taskId tasks s ts dateNow)" by simp
  show "achievementsUnlocked r =
           checkAchievements ((newState r)\<lparr>achievements := achievements s\<rparr>) task
             (completedTasks s = 0) (case ts of Some t \<Rightarrow> t | None \<Rightarrow> dateNow)"
    unfolding r processTaskCompletion_found[OF f nc] by simp
  show "achievements (newState r) = achievements s @ achievementsUnlocked r"
    unfolding r processTaskCompletion_found[OF f nc] by simp
qed

section \<open>Achievement rules\<close>

lemma checkAchievements_eq:
  "checkAchievements st task first now =
     (if first \<and> ''FIRST_BLOOD'' \<notin> set (map ach_id (achievements st))
      then [\<lparr>ach_id = ''FIRST_BLOOD'', icon = icon_FIRST_BLOOD, unlockedAt = Some now\<rparr>]
      else []) @
     (if count (combo st) \<ge> 3 \<and> ''COMBO_MASTER'' \<notin> set (map ach_id (achievements st))
      then [\<lparr>ach_id = ''COMBO_MASTER'', icon = icon_COMBO_MASTER, unlockedAt = Some now\<rparr>]
      else []) @
     (if difficulty task = Rank_S \<and> ''LEGENDARY'' \<notin> set (map ach_id (achievements st))
      then [\<lparr>ach_id = ''LEGENDARY'', icon = icon_LEGENDARY, unlockedAt = Some now\<rparr>]
      else []) @
     (if level st \<ge> 3 \<and> ''VETERAN'' \<notin> set (map ach_id (achievements st))
      then [\<lparr>ach_id = ''VETERAN'', icon = icon_VETERAN, unlockedAt = Some now\<rparr>]
      else [])"
  by (simp add: checkAchievements_def Let_def)

lemma checkAchievements_fresh:
  "set (map ach_id (checkAchievements st task first now)) \<inter> set (map ach_id (achievements st)) = {}"
  by (auto simp: checkAchievements_def Let_def)

lemma checkAchievements_distinct:
  "distinct (map ach_id (checkAchievements st task first now))"
  by (auto simp: checkAchievements_def Let_def)

section \<open>Evaluating the samples\<close>

lemma processTaskCompletion_returns:
  assumes "find (\<lambda>t. task_id t = taskId) tasks = Some task" and "\<not> completed task"
  shows "\<exists>r. processTaskCompletion taskId tasks s ts dateNow = Some r"
  by (simp add: processTaskCompletion_found[OF assms])

lemma find_createDummyTask:
  "find (\<lambda>t. task_id t = i) [createDummyTask i d x] = Some (createDummyTask i d x)"
  by (simp add: createDummyTask_def)

lemma createDummyTask_open: "\<not> completed (createDummyTask i d x)"
  by (simp add: createDummyTask_def)

lemmas single_task_returns =
  processTaskCompletion_returns[OF find_createDummyTask createDummyTask_open]


lemma brink_eval:
  "processTaskCompletion ''t3'' [createDummyTask ''t3'' Rank_S 100] brinkState (Some 2000) 0
     = Some brinkResult"
  by code_simp

lemma chained_eval:
  "processTaskCompletion ''t3'' [createDummyTask ''t3'' Rank_B 100] chainedState (Some 7000) 0
     = Some chainedResult"
  by code_simp

section \<open>Leveling: one pass\<close>

lemma overflow_eval:
  "processTaskCompletion ''t1'' [createDummyTask ''t1'' Rank_B 2500] createInitialState (Some 1000) 0
     = Some overflowResult"
  by code_simp

lemma overflow_reachable: "reachable (newState overflowResult)"
proof (rule reachable.completion[OF reachable.initial _ _ overflow_eval])
  show "list_all (\<lambda>t. 0 < xp t) [createDummyTask ''t1'' Rank_B 2500]"
    by (simp add: createDummyTask_def)
  show "distinct (map task_id [createDummyTask ''t1'' Rank_B 2500])"
    by simp
qed

lemma levelingLoop_spec_overflow:
  "levelingLoop_spec 2500 1 1000 False = Some (0, 3, 2250, True)"
  by (simp add: levelingLoop_spec.simps)

lemma leveling_is_one_pass:
  assumes "processTaskCompletion taskId tasks s ts dateNow = Some r"
  shows "(currentXp (newState r), level (newState r), totalXpNeeded (newState r), leveledUp r) =
     (if currentXp s + xpGained r \<ge> totalXpNeeded s
      then (currentXp s + xpGained r - totalXpNeeded s, level s + 1,
            \<lfloor>of_int (totalXpNeeded s) * (3 / 2 :: rat)\<rfloor>, True)
      else (currentXp s + xpGained r, level s, totalXpNeeded s, False))"
proof -
  from assms obtain task where f: "find (\<lambda>t. task_id t = taskId) tasks = Some task"
    and nc: "\<not> completed task"
    by (rule processTaskCompletion_Some_task)
  from assms have r: "r = the (processTaskCompletion taskId tasks s ts dateNow)" by simp
  show ?thesis
    unfolding r processTaskCompletion_found[OF f nc]
    by (simp add: getNextLevelThreshold_def XP_MULTIPLIER_def)
qed

lemma leveling_agrees_below_two_levels:
  assumes "processTaskCompletion taskId tasks s ts dateNow = Some r"
      and "currentXp s + xpGained r - totalXpNeeded s < \<lfloor>of_int (totalXpNeeded s) * (3 / 2 :: rat)\<rfloor>"
  shows "levelingLoop_spec (currentXp s + xpGained r) (level s) (totalXpNeeded s) False =
           Some (currentXp (newState r), level (newState r), totalXpNeeded (newState r), leveledUp r)"
  unfolding leveling_is_one_pass[OF assms(1)]
  using assms(2)
  by (subst levelingLoop_spec.simps, simp, subst levelingLoop_spec.simps, simp)

lemma reachable_nonneg:
  "reachable s \<Longrightarrow> 0 \<le> currentXp s \<and> 0 \<le> count (combo s)"
proof (induction rule: reachable.induct)
  case initial
  show ?case by (simp add: createInitialState_def)
next
  case (completion s tasks taskId ts dateNow r)
  from completion.hyps(4) obtain task where f: "find (\<lambda>t. task_id t = taskId) tasks = Some task"
    and nc: "\<not> completed task"
    by (rule processTaskCompletion_Some_task)
  from find_task_SomeD[OF f] completion.hyps(2) have px: "0 < xp task"
    by (auto simp: list_all_iff)
  from completion.IH have c0: "0 \<le> count (combo s)" and x0: "0 \<le> currentXp s" by simp_all
  from completion.hyps(4) have r: "r = the (processTaskCompletion taskId tasks s ts dateNow)" by simp
  have cnt: "0 \<le> count (combo (newState r))"
    unfolding r processTaskCompletion_found[OF f nc] using c0 by simp
  have m0: "0 \<le> multiplier (combo (newState r))"
    unfolding r processTaskCompletion_found[OF f nc] using c0
    by (simp add: dadd_nonneg dmul_nonneg round_double_nonneg)
  have g: "xpGained r = \<lfloor>dmul (of_int (xp task)) (multiplier (combo (newState r)))\<rfloor>"
    unfolding r processTaskCompletion_found[OF f nc] by simp
  have "0 \<le> dmul (of_int (xp task)) (multiplier (combo (newState r)))"
    using px m0 by (intro dmul_nonneg) simp_all
  then have g0: "0 \<le> xpGained r" unfolding g by simp
  from leveling_is_one_pass[OF completion.hyps(4)] x0 g0 have "0 \<le> currentXp (newState r)"
    by (auto split: if_splits)
  with cnt show ?case by simp
qed

section \<open>Trimming the momentum history\<close>





section \<open>Running the engine on a store\<close>

lemma bind_h_Some: "m h = Some (x, h') \<Longrightarrow> bind_h m f h = f x h'"
  by (simp add: bind_h_def)

lemma return_h_run: "return_h x h = Some (x, h)"
  by (simp add: return_h_def)

lemma alloc_h_run: "alloc_h c h = Some (length h, h @ [c])"
  by (simp add: alloc_h_def)

lemma cell_at_append: "cell_at h a = Some c \<Longrightarrow> cell_at (h @ cs) a = Some c"
  by (auto simp: cell_at_def nth_append split: if_splits)

lemma cell_at_new: "cell_at (h @ c # cs) (length h) = Some c"
  by (simp add: cell_at_def)

lemma read_h_run: "cell_at h a = Some c \<Longrightarrow> read_h a h = Some (c, h)"
  by (auto simp: cell_at_def read_h_def split: if_splits)

lemma get_task_run: "cell_at h a = Some (TaskCell t) \<Longrightarrow> get_task a h = Some (t, h)"
  by (simp add: get_task_def bind_h_Some[OF read_h_run] return_h_run)

lemma get_task_array_run:
  "cell_at h a = Some (TaskArray rs) \<Longrightarrow> get_task_array a h = Some (rs, h)"
  by (simp add: get_task_array_def bind_h_Some[OF read_h_run] return_h_run)

lemma get_numbers_run:
  "cell_at h a = Some (NumberArray xs) \<Longrightarrow> get_numbers a h = Some (xs, h)"
  by (simp add: get_numbers_def bind_h_Some[OF read_h_run] return_h_run)

lemma get_combo_run: "cell_at h a = Some (ComboCell c) \<Longrightarrow> get_combo a h = Some (c, h)"
  by (simp add: get_combo_def bind_h_Some[OF read_h_run] return_h_run)

lemma get_achievement_run:
  "cell_at h a = Some (AchievementCell x) \<Longrightarrow> get_achievement a h = Some (x, h)"
  by (simp add: get_achievement_def bind_h_Some[OF read_h_run] return_h_run)

lemma get_achievement_array_run:
  "cell_at h a = Some (AchievementArray rs) \<Longrightarrow> get_achievement_array a h = Some (rs, h)"
  by (simp add: get_achievement_array_def bind_h_Some[OF read_h_run] return_h_run)

lemma get_state_run:
  "cell_at h a = Some (StateCell lv cx need cnt mo co ac) \<Longrightarrow>
   get_state a h = Some ((lv, cx, need, cnt, mo, co, ac), h)"
  by (simp add: get_state_def bind_h_Some[OF read_h_run] return_h_run)

lemma bind_return: "bind_h (return_h x) f h = f x h"
  by (simp add: bind_h_def return_h_def)

lemma bind_alloc: "bind_h (alloc_h c) f h = f (length h) (h @ [c])"
  by (simp add: bind_h_def alloc_h_def)

lemma bind_get_task: "cell_at h a = Some (TaskCell t) \<Longrightarrow> bind_h (get_task a) f h = f t h"
  by (simp add: bind_h_def get_task_run)

lemma bind_get_task_array:
  "cell_at h a = Some (TaskArray rs) \<Longrightarrow> bind_h (get_task_array a) f h = f rs h"
  by (simp add: bind_h_def get_task_array_run)

lemma bind_get_numbers:
  "cell_at h a = Some (NumberArray xs) \<Longrightarrow> bind_h (get_numbers a) f h = f xs h"
  by (simp add: bind_h_def get_numbers_run)

lemma bind_get_combo: "cell_at h a = Some (ComboCell c) \<Longrightarrow> bind_h (get_combo a) f h = f c h"
  by (simp add: bind_h_def get_combo_run)

lemma bind_get_achievement:
  "cell_at h a = Some (AchievementCell x) \<Longrightarrow> bind_h (get_achievement a) f h = f x h"
  by (simp add: bind_h_def get_achievement_run)

lemma bind_get_achievement_array:
  "cell_at h a = Some (AchievementArray rs) \<Longrightarrow> bind_h (get_achievement_array a) f h = f rs h"
  by (simp add: bind_h_def get_achievement_array_run)

lemma bind_get_state:
  "cell_at h a = Some (StateCell lv cx need cnt mo co ac) \<Longrightarrow>
   bind_h (get_state a) f h = f (lv, cx, need, cnt, mo, co, ac) h"
  by (simp add: bind_h_def get_state_run)

lemma bind_assoc: "bind_h (bind_h m f) g = bind_h m (\<lambda>x. bind_h (f x) g)"
  by (auto simp: bind_h_def fun_eq_iff split: option.splits)

lemma bind_write: "a < length h \<Longrightarrow> bind_h (write_h a c) f h = f () (h[a := c])"
  by (simp add: bind_h_def write_h_def)

lemma tasks_at_iff:
  "tasks_at h rs = Some ts \<longleftrightarrow>
     length rs = length ts \<and> (\<forall>i < length rs. cell_at h (rs ! i) = Some (TaskCell (ts ! i)))"
proof (induction rs arbitrary: ts)
  case Nil
  show ?case by auto
next
  case (Cons a rs)
  show ?case
  proof (cases ts)
    case Nil
    then show ?thesis by (auto split: option.splits cell.splits)
  next
    case (Cons t ts')
    then show ?thesis
      using Cons.IH[of ts']
      by (auto simp: nth_Cons less_Suc_eq_0_disj split: option.splits cell.splits nat.splits)
  qed
qed

lemma achievements_at_iff:
  "achievements_at h rs = Some xs \<longleftrightarrow>
     length rs = length xs \<and>
     (\<forall>i < length rs. cell_at h (rs ! i) = Some (AchievementCell (xs ! i)))"
proof (induction rs arbitrary: xs)
  case Nil
  show ?case by auto
next
  case (Cons a rs)
  show ?case
  proof (cases xs)
    case Nil
    then show ?thesis by (auto split: option.splits cell.splits)
  next
    case (Cons x xs')
    then show ?thesis
      using Cons.IH[of xs']
      by (auto simp: nth_Cons less_Suc_eq_0_disj split: option.splits cell.splits nat.splits)
  qed
qed

lemma tasks_at_append: "tasks_at h rs = Some ts \<Longrightarrow> tasks_at (h @ cs) rs = Some ts"
  by (simp add: tasks_at_iff cell_at_append)

lemma achievements_at_append:
  "achievements_at h rs = Some xs \<Longrightarrow> achievements_at (h @ cs) rs = Some xs"
  by (simp add: achievements_at_iff cell_at_append)

lemma task_list_at_append:
  "task_list_at h a = Some ts \<Longrightarrow> task_list_at (h @ cs) a = Some ts"
  by (auto simp: task_list_at_def cell_at_append tasks_at_append split: option.splits cell.splits)

lemma achievement_list_at_append:
  "achievement_list_at h a = Some xs \<Longrightarrow> achievement_list_at (h @ cs) a = Some xs"
  by (auto simp: achievement_list_at_def cell_at_append achievements_at_append
           split: option.splits cell.splits)

lemma state_at_append: "state_at h a = Some s \<Longrightarrow> state_at (h @ cs) a = Some s"
  by (auto simp: state_at_def cell_at_append achievement_list_at_append
           split: option.splits cell.splits)

lemma find_h_run:
  "tasks_at h rs = Some ts \<Longrightarrow>
   \<exists>found. find_h taskId rs h = Some (found, h) \<and>
     (case found of
        None \<Rightarrow> find (\<lambda>t. task_id t = taskId) ts = None
      | Some a \<Rightarrow> \<exists>t. cell_at h a = Some (TaskCell t) \<and>
                      find (\<lambda>t. task_id t = taskId) ts = Some t)"
proof (induction rs arbitrary: ts)
  case Nil
  then show ?case by (simp add: return_h_run)
next
  case (Cons a rs)
  from Cons.prems obtain t ts' where c: "cell_at h a = Some (TaskCell t)"
    and r: "tasks_at h rs = Some ts'" and ts: "ts = t # ts'"
    by (auto split: option.splits cell.splits)
  show ?case
  proof (cases "task_id t = taskId")
    case True
    then show ?thesis
      by (simp add: bind_get_task[OF c] return_h_run c ts)
  next
    case False
    then have fs: "find (\<lambda>t. task_id t = taskId) (t # ts') = find (\<lambda>t. task_id t = taskId) ts'"
      by simp
    from Cons.IH[OF r] show ?thesis
      unfolding ts fs by (simp add: bind_get_task[OF c] False)
  qed
qed

lemma map_completed_h_run:
  "tasks_at h rs = Some ts \<Longrightarrow>
   \<exists>bs cs. map_completed_h taskId rs h = Some (bs, h @ cs) \<and>
     tasks_at (h @ cs) bs =
       Some (map (\<lambda>t. if task_id t = taskId then t\<lparr>completed := True\<rparr> else t) ts)"
proof (induction rs arbitrary: h ts)
  case Nil
  then show ?case by (auto simp: return_h_run intro: exI[of _ "[]"])
next
  case (Cons a rs)
  from Cons.prems obtain t ts' where c: "cell_at h a = Some (TaskCell t)"
    and r: "tasks_at h rs = Some ts'" and ts: "ts = t # ts'"
    by (auto split: option.splits cell.splits)
  show ?case
  proof (cases "task_id t = taskId")
    case True
    let ?c = "TaskCell (t\<lparr>completed := True\<rparr>)"
    from Cons.IH[OF tasks_at_append[OF r, of "[?c]"]] obtain bs cs where
      m: "map_completed_h taskId rs (h @ [?c]) = Some (bs, (h @ [?c]) @ cs)" and
      d: "tasks_at ((h @ [?c]) @ cs) bs =
            Some (map (\<lambda>t. if task_id t = taskId then t\<lparr>completed := True\<rparr> else t) ts')"
      by blast
    have "map_completed_h taskId (a # rs) h = Some (length h # bs, h @ (?c # cs))"
      using True m
      by (simp add: bind_get_task[OF c] bind_alloc
                    bind_h_Some[where m = "map_completed_h taskId rs", OF m] return_h_run)
    moreover have "tasks_at (h @ (?c # cs)) (length h # bs) =
        Some (map (\<lambda>t. if task_id t = taskId then t\<lparr>completed := True\<rparr> else t) ts)"
      using d True by (simp add: ts cell_at_new)
    ultimately show ?thesis by blast
  next
    case False
    from Cons.IH[OF r] obtain bs cs where
      m: "map_completed_h taskId rs h = Some (bs, h @ cs)" and
      d: "tasks_at (h @ cs) bs =
            Some (map (\<lambda>t. if task_id t = taskId then t\<lparr>completed := True\<rparr> else t) ts')"
      by blast
    have "map_completed_h taskId (a # rs) h = Some (a # bs, h @ cs)"
      using False
      by (simp add: bind_get_task[OF c] bind_return
                    bind_h_Some[where m = "map_completed_h taskId rs", OF m] return_h_run)
    moreover have "tasks_at (h @ cs) (a # bs) =
        Some (map (\<lambda>t. if task_id t = taskId then t\<lparr>completed := True\<rparr> else t) ts)"
      using d False by (simp add: ts cell_at_append[OF c])
    ultimately show ?thesis by blast
  qed
qed

lemma calculateMomentum_h_run:
  assumes "cell_at h m = Some (NumberArray hs)"
  shows "calculateMomentum_h m x h = Some (length h, h @ [NumberArray (calculateMomentum hs x)])"
  by (simp add: calculateMomentum_h_def calculateMomentum_def Let_def shift_h_def
        bind_get_numbers[OF assms] bind_alloc bind_get_numbers[OF cell_at_new] return_h_run
        bind_return bind_assoc bind_write)

lemma map_ids_h_run:
  "achievements_at h rs = Some xs \<Longrightarrow> map_ids_h rs h = Some (map ach_id xs, h)"
proof (induction rs arbitrary: xs)
  case Nil
  then show ?case by (simp add: return_h_run)
next
  case (Cons a rs)
  from Cons.prems obtain x xs' where c: "cell_at h a = Some (AchievementCell x)"
    and r: "achievements_at h rs = Some xs'" and xs: "xs = x # xs'"
    by (auto split: option.splits cell.splits)
  show ?case
    by (simp add: bind_get_achievement[OF c]
                  bind_h_Some[where m = "map_ids_h rs", OF Cons.IH[OF r]] return_h_run xs)
qed

lemma fresh_refs_0: "fresh_refs base 0 = []"
  by (simp add: fresh_refs_def)

lemma fresh_refs_Suc: "fresh_refs base (Suc n) = fresh_refs base n @ [base + n]"
  by (simp add: fresh_refs_def)

lemma length_fresh_refs: "length (fresh_refs base n) = n"
  by (simp add: fresh_refs_def)

lemma nth_fresh_refs: "i < n \<Longrightarrow> fresh_refs base n ! i = base + i"
  by (simp add: fresh_refs_def)

lemma unlock_store_empty: "h @ [AchievementArray []] = unlock_store h []"
  by (simp add: unlock_store_def fresh_refs_0)

lemma cell_at_unlock_store: "cell_at h a = Some c \<Longrightarrow> cell_at (unlock_store h xs) a = Some c"
  by (simp add: unlock_store_def cell_at_append)

lemma achievements_at_unlock_store:
  "achievements_at h rs = Some ys \<Longrightarrow> achievements_at (unlock_store h xs) rs = Some ys"
  by (simp add: unlock_store_def achievements_at_append)

lemma unlock_store_array:
  "cell_at (unlock_store h xs) (length h) =
     Some (AchievementArray (fresh_refs (Suc (length h)) (length xs)))"
  by (simp add: unlock_store_def cell_at_new)

lemma unlock_store_cells:
  "achievements_at (unlock_store h xs) (fresh_refs (Suc (length h)) (length xs)) = Some xs"
  by (simp add: achievements_at_iff unlock_store_def cell_at_def nth_append
        length_fresh_refs nth_fresh_refs)

lemma length_unlock_store: "length (unlock_store h xs) = Suc (length h + length xs)"
  by (simp add: unlock_store_def)

lemma unlock_store_snoc:
  "(unlock_store h xs @ [AchievementCell a])
     [length h := AchievementArray (fresh_refs (Suc (length h)) (length xs)
                                      @ [Suc (length h + length xs)])]
   = unlock_store h (xs @ [a])"
  by (simp add: unlock_store_def list_update_append fresh_refs_Suc)

lemma bind_push_new:
  "bind_h (if b then push_new_h (length h) a else return_h ()) f (unlock_store h xs) =
     f () (unlock_store h (xs @ (if b then [a] else [])))"
proof (cases b)
  case False
  then show ?thesis by (simp add: bind_return)
next
  case True
  have arr: "cell_at (unlock_store h xs @ [AchievementCell a]) (length h) =
     Some (AchievementArray (fresh_refs (Suc (length h)) (length xs)))"
    by (rule cell_at_append[OF unlock_store_array])
  show ?thesis
    using True
    by (simp add: push_new_h_def push_h_def bind_assoc bind_alloc
          bind_get_achievement_array[OF arr] bind_write length_unlock_store
          unlock_store_snoc[simplified])
qed

lemma checkAchievements_h_run:
  assumes st: "cell_at h st = Some (StateCell lv cx need cnt mo co ac)"
      and co: "cell_at h co = Some (ComboCell c)"
      and ac: "cell_at h ac = Some (AchievementArray ars)"
      and achs: "achievements_at h ars = Some achs"
      and task: "cell_at h task = Some (TaskCell t)"
      and S: "level S = lv" "combo S = c" "achievements S = achs"
  shows "checkAchievements_h st task first now h =
           Some (length h, unlock_store h (checkAchievements S t first now))"
proof -
  note lift = cell_at_unlock_store
  show ?thesis
    unfolding checkAchievements_h_def
    by (simp add: bind_alloc unlock_store_empty
          bind_get_state[OF lift[OF st]] bind_get_achievement_array[OF lift[OF ac]]
          bind_h_Some[where m = "map_ids_h ars", OF map_ids_h_run[OF achievements_at_unlock_store[OF achs]]]
          bind_push_new bind_get_combo[OF lift[OF co]] bind_get_task[OF lift[OF task]]
          return_h_run checkAchievements_eq S Let_def)
qed

lemma bind_calculateMomentum:
  "cell_at h m = Some (NumberArray hs) \<Longrightarrow>
   bind_h (calculateMomentum_h m x) f h = f (length h) (h @ [NumberArray (calculateMomentum hs x)])"
  by (simp add: bind_h_def calculateMomentum_h_run)

lemma if_True_False: "(if P then True else False) \<longleftrightarrow> P"
  by simp

lemma case_if_pair:
  "(case (if P then (a, b) else (c, d)) of (x, y) \<Rightarrow> F x y) =
     F (if P then a else c) (if P then b else d)"
  by simp

lemma case_if_quad:
  "(case (if P then (a, b, c, d) else (a', b', c', d')) of (w, x, y, z) \<Rightarrow> F w x y z) =
     F (if P then a else a') (if P then b else b') (if P then c else c') (if P then d else d')"
  by simp

lemma cell_at_new1: "cell_at (h @ c0 # c # cs) (Suc (length h)) = Some c"
  by (simp add: cell_at_def nth_append)

lemma cell_at_new2: "cell_at (h @ c0 # c1 # c # cs) (Suc (Suc (length h))) = Some c"
  by (simp add: cell_at_def nth_append)

lemma tasks_at_unlock_store:
  "tasks_at h rs = Some ys \<Longrightarrow> tasks_at (unlock_store h xs) rs = Some ys"
  by (simp add: unlock_store_def tasks_at_append)

lemma achievements_at_app:
  "achievements_at h xs = Some as \<Longrightarrow> achievements_at h ys = Some bs \<Longrightarrow>
   achievements_at h (xs @ ys) = Some (as @ bs)"
  by (auto simp: achievements_at_iff nth_append)

lemma bind_checkAchievements_tail:
  assumes ar: "cell_at g ac = Some (AchievementArray ars)"
      and aa: "achievements_at g ars = Some achs"
      and tc: "cell_at g a = Some (TaskCell t)"
  shows "bind_h (checkAchievements_h (Suc (Suc (length g))) a first now) f
           (g @ [NumberArray M, ComboCell C,
                 StateCell LV CX NEED DN (length g) (Suc (length g)) ac]) =
         f (Suc (Suc (Suc (length g))))
           (unlock_store
              (g @ [NumberArray M, ComboCell C,
                    StateCell LV CX NEED DN (length g) (Suc (length g)) ac])
              (checkAchievements
                 \<lparr>level = LV, currentXp = CX, totalXpNeeded = NEED, completedTasks = DN,
                  momentum = M, combo = C, achievements = achs\<rparr> t first now))"
proof -
  let ?G = "g @ [NumberArray M, ComboCell C,
                 StateCell LV CX NEED DN (length g) (Suc (length g)) ac]"
  have "checkAchievements_h (Suc (Suc (length g))) a first now ?G =
          Some (length ?G, unlock_store ?G (checkAchievements
                 \<lparr>level = LV, currentXp = CX, totalXpNeeded = NEED, completedTasks = DN,
                  momentum = M, combo = C, achievements = achs\<rparr> t first now))"
    by (rule checkAchievements_h_run[OF cell_at_new2 cell_at_new1 cell_at_append[OF ar]
              achievements_at_append[OF aa] cell_at_append[OF tc]]) simp_all
  then show ?thesis by (simp add: bind_h_def)
qed

lemma unlock_store_array3:
  "cell_at (unlock_store (g @ [x, y, z]) xs) (Suc (Suc (Suc (length g)))) =
     Some (AchievementArray (fresh_refs (Suc (Suc (Suc (Suc (length g))))) (length xs)))"
  using unlock_store_array[of "g @ [x, y, z]" xs] by simp

lemma unlock_store_cells3:
  "achievements_at (unlock_store (g @ [x, y, z]) xs)
     (fresh_refs (Suc (Suc (Suc (Suc (length g))))) (length xs)) = Some xs"
  using unlock_store_cells[of "g @ [x, y, z]" xs] by simp

lemma completion_run:
  fixes ts :: "int option" and c :: Combo and t :: GameTask and dateNow :: int
    and lv cx need dn :: int and ms :: "rat list" and achs :: "Achievement list"
    and g1 :: store
  assumes tr: "cell_at h tasksRef = Some (TaskArray refs)"
      and fh: "find_h taskId refs h = Some (Some a, h)"
      and tc: "cell_at h a = Some (TaskCell t)"
      and nc: "\<not> completed t"
      and mr: "map_completed_h taskId refs h = Some (bs, g0)"
      and g1: "g1 = g0 @ [TaskArray bs]"
      and sc: "cell_at g1 stateRef = Some (StateCell lv cx need dn mo co ac)"
      and mc: "cell_at g1 mo = Some (NumberArray ms)"
      and cc: "cell_at g1 co = Some (ComboCell c)"
      and ar: "cell_at g1 ac = Some (AchievementArray ars)"
      and aa: "achievements_at g1 ars = Some achs"
      and tc1: "cell_at g1 a = Some (TaskCell t)"
      and mt: "tasks_at g1 bs =
                 Some (map (\<lambda>t. if task_id t = taskId then t\<lparr>completed := True\<rparr> else t) tasks)"
      and ft: "find (\<lambda>t. task_id t = taskId) tasks = Some t"
      and s: "s = \<lparr>level = lv, currentXp = cx, totalXpNeeded = need, completedTasks = dn,
                   momentum = ms, combo = c, achievements = achs\<rparr>"
  shows "\<exists>res cs. processTaskCompletion_h taskId tasksRef stateRef ts dateNow h
                     = Some (Some res, g1 @ cs) \<and>
                   result_at (g1 @ cs) res = processTaskCompletion taskId tasks s ts dateNow"
proof -
  define now where "now = (case ts of Some t \<Rightarrow> t | None \<Rightarrow> dateNow)"
  define chained where
    "chained \<longleftrightarrow> now - lastCompletionTime c < COMBO_WINDOW_MS \<and> lastCompletionTime c > 0"
  define cn where "cn = (if chained then count c + 1 else 1)"
  define cm where
    "cm = (if chained then dadd 1 (dmul (of_int (count c + 1)) (round_double (1 / 10)))
           else (1::rat))"
  define fx where "fx = \<lfloor>dmul (of_int (xp t)) cm\<rfloor>"
  define lvd where "lvd \<longleftrightarrow> need \<le> cx + fx"
  define NL where "NL = (if lvd then lv + 1 else lv)"
  define NX where "NX = (if lvd then cx + fx - need else cx + fx)"
  define NN where "NN = (if lvd then getNextLevelThreshold need else need)"
  define NM where "NM = calculateMomentum ms fx"
  define NC where "NC = \<lparr>count = cn, multiplier = cm, lastCompletionTime = now\<rparr>"
  define news where
    "news = checkAchievements
              \<lparr>level = NL, currentXp = NX, totalXpNeeded = NN, completedTasks = dn + 1,
               momentum = NM, combo = NC, achievements = achs\<rparr> t (dn = 0) now"
  define G where
    "G = g1 @ [NumberArray NM, ComboCell NC,
               StateCell NL NX NN (dn + 1) (length g1) (Suc (length g1)) ac]"
  define U where "U = unlock_store G news"
  define FR where "FR = fresh_refs (Suc (Suc (Suc (Suc (length g1))))) (length news)"
  define HF where
    "HF = U @ [AchievementArray (ars @ FR),
               StateCell NL NX NN (dn + 1) (length g1) (Suc (length g1)) (length U),
               ResultCell (Suc (length U)) (length g0) lvd fx (Suc (Suc (Suc (length g1))))
                 (1 < cn)]"
  define R where
    "R = \<lparr>newState = \<lparr>level = NL, currentXp = NX, totalXpNeeded = NN,
                        completedTasks = dn + 1, momentum = NM, combo = NC,
                        achievements = achs @ news\<rparr>,
          newTasks = map (\<lambda>t. if task_id t = taskId then t\<lparr>completed := True\<rparr> else t) tasks,
          leveledUp = lvd, xpGained = fx, achievementsUnlocked = news,
          comboTriggered = (1 < cn)\<rparr>"
  have run: "processTaskCompletion_h taskId tasksRef stateRef ts dateNow h
               = Some (Some (Suc (Suc (length U))), HF)"
    unfolding processTaskCompletion_h_def HF_def U_def G_def FR_def news_def NC_def NM_def
      NN_def NX_def NL_def lvd_def fx_def cm_def cn_def chained_def now_def
    by (simp add: bind_get_task_array[OF tr] bind_h_Some[where m = "find_h taskId refs", OF fh]
      bind_get_task[OF tc] nc bind_h_Some[where m = "map_completed_h taskId refs", OF mr]
      bind_alloc g1[symmetric] bind_get_state[OF sc] bind_get_combo[OF cc]
      Let_def case_if_pair case_if_quad bind_calculateMomentum[OF mc]
      bind_checkAchievements_tail[OF ar aa tc1]
      bind_get_achievement_array[OF cell_at_unlock_store[OF cell_at_append[OF ar]]]
      bind_get_achievement_array[OF unlock_store_array3] return_h_run if_True_False
      split del: if_split)
  have ta: "cell_at g1 (length g0) = Some (TaskArray bs)"
    unfolding g1 by (rule cell_at_new)
  have dec: "result_at HF (Suc (Suc (length U))) = Some R"
    unfolding HF_def U_def G_def R_def FR_def
    by (simp add: result_at_def state_at_def task_list_at_def achievement_list_at_def
        cell_at_new cell_at_new1 cell_at_new2
        cell_at_append[OF cell_at_unlock_store[OF cell_at_new]]
        cell_at_append[OF cell_at_unlock_store[OF cell_at_new1]]
        cell_at_append[OF cell_at_unlock_store[OF cell_at_append[OF ta]]]
        cell_at_append[OF unlock_store_array3]
        achievements_at_append[OF unlock_store_cells3]
        achievements_at_app[OF
           achievements_at_append[OF achievements_at_unlock_store[OF achievements_at_append[OF aa]]]
           achievements_at_append[OF unlock_store_cells3]]
        tasks_at_append[OF tasks_at_unlock_store[OF tasks_at_append[OF mt]]])
  have pure: "processTaskCompletion taskId tasks s ts dateNow = Some R"
    unfolding processTaskCompletion_found[OF ft nc] s R_def news_def NC_def NM_def
      NN_def NX_def NL_def lvd_def fx_def cm_def cn_def chained_def now_def
    by simp
  have shape: "HF = g1 @ ([NumberArray NM, ComboCell NC,
               StateCell NL NX NN (dn + 1) (length g1) (Suc (length g1)) ac]
            @ AchievementArray (fresh_refs (Suc (length G)) (length news)) # map AchievementCell news
            @ [AchievementArray (ars @ FR),
               StateCell NL NX NN (dn + 1) (length g1) (Suc (length g1)) (length U),
               ResultCell (Suc (length U)) (length g0) lvd fx (Suc (Suc (Suc (length g1))))
                 (1 < cn)])"
    by (simp add: HF_def U_def unlock_store_def G_def)
  from run dec pure show ?thesis
    unfolding shape by metis
qed

lemma find_task_index:
  "find (\<lambda>t. task_id t = taskId) tasks = Some t \<Longrightarrow>
   \<exists>i < length tasks. tasks ! i = t \<and> task_id t = taskId"
  by (auto simp: find_Some_iff)

lemma map_completed_distinct:
  assumes d: "distinct (map task_id tasks)" and i: "i < length tasks"
      and m: "task_id (tasks ! i) = taskId"
  shows "map (\<lambda>t. if task_id t = taskId then t\<lparr>completed := True\<rparr> else t) tasks =
           tasks[i := (tasks ! i)\<lparr>completed := True\<rparr>]"
proof (rule nth_equalityI)
  show "length (map (\<lambda>t. if task_id t = taskId then t\<lparr>completed := True\<rparr> else t) tasks) =
        length (tasks[i := (tasks ! i)\<lparr>completed := True\<rparr>])"
    by simp
next
  fix j
  assume "j < length (map (\<lambda>t. if task_id t = taskId then t\<lparr>completed := True\<rparr> else t) tasks)"
  then have j: "j < length tasks" by simp
  show "map (\<lambda>t. if task_id t = taskId then t\<lparr>completed := True\<rparr> else t) tasks ! j =
        tasks[i := (tasks ! i)\<lparr>completed := True\<rparr>] ! j"
  proof (cases "j = i")
    case True
    with i m show ?thesis by simp
  next
    case False
    have "task_id (tasks ! j) \<noteq> taskId"
      using nth_eq_iff_index_eq[OF d, of j i] i j m False by simp
    with j False show ?thesis by simp
  qed
qed

lemma processTaskCompletion_h_refines:
  assumes tl: "task_list_at h currentTasks = Some tasks"
      and st: "state_at h currentState = Some s"
  shows "\<exists>res cs. processTaskCompletion_h taskId currentTasks currentState ts dateNow h
                      = Some (res, h @ cs) \<and>
           (case res of
              None \<Rightarrow> cs = [] \<and> processTaskCompletion taskId tasks s ts dateNow = None
            | Some a \<Rightarrow> (\<exists>r. processTaskCompletion taskId tasks s ts dateNow = Some r \<and>
                             result_at (h @ cs) a = Some r))"
proof -
  from tl obtain refs where tr: "cell_at h currentTasks = Some (TaskArray refs)"
    and ta: "tasks_at h refs = Some tasks"
    by (auto simp: task_list_at_def split: option.splits cell.splits)
  from st obtain lv cx need dn mo co ac ms c ars achs where
    sc: "cell_at h currentState = Some (StateCell lv cx need dn mo co ac)" and
    mc: "cell_at h mo = Some (NumberArray ms)" and
    cc: "cell_at h co = Some (ComboCell c)" and
    ar: "cell_at h ac = Some (AchievementArray ars)" and
    aa: "achievements_at h ars = Some achs" and
    s: "s = \<lparr>level = lv, currentXp = cx, totalXpNeeded = need, completedTasks = dn,
              momentum = ms, combo = c, achievements = achs\<rparr>"
    by (auto simp: state_at_def achievement_list_at_def split: option.splits cell.splits)
  from find_h_run[OF ta, of taskId] obtain found where
    fh: "find_h taskId refs h = Some (found, h)" and
    fc: "case found of
           None \<Rightarrow> find (\<lambda>t. task_id t = taskId) tasks = None
         | Some a \<Rightarrow> \<exists>t. cell_at h a = Some (TaskCell t) \<and>
                         find (\<lambda>t. task_id t = taskId) tasks = Some t"
    by blast
  show ?thesis
  proof (cases found)
    case None
    with fc have "processTaskCompletion taskId tasks s ts dateNow = None"
      by (simp add: processTaskCompletion_def)
    moreover have "processTaskCompletion_h taskId currentTasks currentState ts dateNow h
                     = Some (None, h @ [])"
      using fh None
      by (simp add: processTaskCompletion_h_def bind_get_task_array[OF tr]
            bind_h_Some[where m = "find_h taskId refs"] return_h_run)
    ultimately show ?thesis by force
  next
    case (Some a)
    with fc obtain t where tc: "cell_at h a = Some (TaskCell t)"
      and ft: "find (\<lambda>t. task_id t = taskId) tasks = Some t"
      by auto
    from fh Some have fh': "find_h taskId refs h = Some (Some a, h)" by simp
    show ?thesis
    proof (cases "completed t")
      case True
      with ft have "processTaskCompletion taskId tasks s ts dateNow = None"
        by (simp add: processTaskCompletion_def)
      moreover have "processTaskCompletion_h taskId currentTasks currentState ts dateNow h
                       = Some (None, h @ [])"
        using True
        by (simp add: processTaskCompletion_h_def bind_get_task_array[OF tr]
              bind_h_Some[where m = "find_h taskId refs", OF fh'] bind_get_task[OF tc]
              return_h_run)
      ultimately show ?thesis by force
    next
      case False
      from map_completed_h_run[OF ta, of taskId] obtain bs cs1 where
        mr: "map_completed_h taskId refs h = Some (bs, h @ cs1)" and
        mt: "tasks_at (h @ cs1) bs =
               Some (map (\<lambda>t. if task_id t = taskId then t\<lparr>completed := True\<rparr> else t) tasks)"
        by blast
      define g1 where "g1 = (h @ cs1) @ [TaskArray bs]"
      have lift: "cell_at h x = Some y \<Longrightarrow> cell_at g1 x = Some y" for x y
        unfolding g1_def by (intro cell_at_append)
      have aa1: "achievements_at g1 ars = Some achs"
        unfolding g1_def by (rule achievements_at_append[OF achievements_at_append[OF aa]])
      have mt1: "tasks_at g1 bs =
               Some (map (\<lambda>t. if task_id t = taskId then t\<lparr>completed := True\<rparr> else t) tasks)"
        unfolding g1_def by (rule tasks_at_append[OF mt])
      from completion_run[OF tr fh' tc False mr g1_def lift[OF sc] lift[OF mc] lift[OF cc]
          lift[OF ar] aa1 lift[OF tc] mt1 ft s, of ts dateNow]
      obtain res cs where
        run: "processTaskCompletion_h taskId currentTasks currentState ts dateNow h
                = Some (Some res, g1 @ cs)" and
        dec: "result_at (g1 @ cs) res = processTaskCompletion taskId tasks s ts dateNow"
        by blast
      from ft False obtain r where r: "processTaskCompletion taskId tasks s ts dateNow = Some r"
        using processTaskCompletion_returns by blast
      have "g1 @ cs = h @ (cs1 @ [TaskArray bs] @ cs)" by (simp add: g1_def)
      with run dec r show ?thesis by force
    qed
  qed
qed

lemma processTaskCompletion_newTasks:
  assumes "processTaskCompletion taskId tasks s ts dateNow = Some r"
  shows "newTasks r = map (\<lambda>t. if task_id t = taskId then t\<lparr>completed := True\<rparr> else t) tasks"
proof -
  from assms obtain task where f: "find (\<lambda>t. task_id t = taskId) tasks = Some task"
    and nc: "\<not> completed task"
    by (rule processTaskCompletion_Some_task)
  from assms show ?thesis
    unfolding processTaskCompletion_found[OF f nc] by auto
qed

lemma task_list_at_prefix:
  "task_list_at h a = Some ts \<Longrightarrow> prefix h h' \<Longrightarrow> task_list_at h' a = Some ts"
  by (auto simp: prefix_def task_list_at_append)

lemma state_at_prefix:
  "state_at h a = Some s \<Longrightarrow> prefix h h' \<Longrightarrow> state_at h' a = Some s"
  by (auto simp: prefix_def state_at_append)

lemma sample_tasks_at: "task_list_at sampleStore 2 = Some sampleTasks"
  by code_simp

lemma sample_state_at: "state_at sampleStore 6 = Some createInitialState"
  by code_simp

section \<open>Claim C1: the XP invariant\<close>

text \<open>
  C1. The claim is that every reachable snapshot has
  \<open>0 \<le> currentXp < totalXpNeeded\<close>, however large a single award. The engine folds
  an overflow into one level-up only (\<open>if\<close>, not \<open>while\<close>): completing one task
  worth 2500 XP from the initial state leaves \<open>currentXp = 1500\<close> with
  \<open>totalXpNeeded = 1500\<close>. The snapshot is reachable and breaks the upper bound (the
  lower bound holds, \<open>reachable_nonneg\<close>).
\<close>

theorem C1_overflow_left_dangling:
  "processTaskCompletion ''t1'' [createDummyTask ''t1'' Rank_B 2500] createInitialState (Some 1000) 0
     = Some overflowResult \<and>
   reachable (newState overflowResult) \<and>
   currentXp (newState overflowResult) = 1500 \<and>
   totalXpNeeded (newState overflowResult) = 1500 \<and>
   \<not> currentXp (newState overflowResult) < totalXpNeeded (newState overflowResult)"
  using overflow_eval overflow_reachable by (simp add: overflowResult_def)

section \<open>Claim C2: leveling as a loop\<close>

text \<open>
  C2. The claim is that leveling repeats while the provisional XP is at least the
  threshold, for any award size. On the 2500 XP award from the initial state the engine
  stops after one pass at \<open>(currentXp, level, threshold) = (1500, 2, 1500)\<close>, where the
  loop gives \<open>(0, 3, 2250)\<close>. (The two agree whenever the award crosses fewer than two
  levels, \<open>leveling_agrees_below_two_levels\<close>, and \<open>leveledUp\<close> is true iff the single
  pass ran, \<open>leveling_is_one_pass\<close>.)
\<close>

theorem C2_single_pass_leveling:
  "processTaskCompletion ''t1'' [createDummyTask ''t1'' Rank_B 2500] createInitialState (Some 1000) 0
     = Some overflowResult \<and>
   (currentXp (newState overflowResult), level (newState overflowResult),
    totalXpNeeded (newState overflowResult), leveledUp overflowResult) = (1500, 2, 1500, True) \<and>
   levelingLoop_spec (currentXp createInitialState + xpGained overflowResult)
     (level createInitialState) (totalXpNeeded createInitialState) False
     = Some (0, 3, 2250, True)"
  using overflow_eval levelingLoop_spec_overflow
  by (simp add: overflowResult_def createInitialState_def)

section \<open>Claim C3: combo evaluation and the awarded XP\<close>



section \<open>Claim C4: the four achievement rules\<close>

text \<open>
  C4. On every non-null completion the list of new unlocks is the concatenation, in the
  order FIRST_BLOOD, COMBO_MASTER, LEGENDARY, VETERAN, of four independent rules, each
  gated by its condition and by the id not being in the old achievement list: the
  pre-event \<open>completedTasks\<close> is 0; the post-event combo count is at least 3; the task's
  difficulty is S; the post-event level is at least 3. Each new entry carries the event
  time, and the accumulated list is the old list followed by the new unlocks.
\<close>

theorem C4_achievement_rules:
  assumes "processTaskCompletion taskId tasks s ts dateNow = Some r"
  shows "\<exists>task. find (\<lambda>t. task_id t = taskId) tasks = Some task \<and>
    (let timestamp = (case ts of Some t \<Rightarrow> t | None \<Rightarrow> dateNow);
         unlocked = (\<lambda>i. i \<in> set (map ach_id (achievements s)))
     in achievementsUnlocked r =
          (if completedTasks s = 0 \<and> \<not> unlocked ''FIRST_BLOOD''
           then [\<lparr>ach_id = ''FIRST_BLOOD'', icon = icon_FIRST_BLOOD,
                  unlockedAt = Some timestamp\<rparr>] else []) @
          (if count (combo (newState r)) \<ge> 3 \<and> \<not> unlocked ''COMBO_MASTER''
           then [\<lparr>ach_id = ''COMBO_MASTER'', icon = icon_COMBO_MASTER,
                  unlockedAt = Some timestamp\<rparr>] else []) @
          (if difficulty task = Rank_S \<and> \<not> unlocked ''LEGENDARY''
           then [\<lparr>ach_id = ''LEGENDARY'', icon = icon_LEGENDARY,
                  unlockedAt = Some timestamp\<rparr>] else []) @
          (if level (newState r) \<ge> 3 \<and> \<not> unlocked ''VETERAN''
           then [\<lparr>ach_id = ''VETERAN'', icon = icon_VETERAN,
                  unlockedAt = Some timestamp\<rparr>] else []) \<and>
        achievements (newState r) = achievements s @ achievementsUnlocked r)"
proof -
  from assms obtain task where f: "find (\<lambda>t. task_id t = taskId) tasks = Some task"
    by (rule processTaskCompletion_Some_task)
  note a = processTaskCompletion_unlocks(2)[OF assms f]
  note c = processTaskCompletion_unlocks(1)[OF assms f]
  show ?thesis
    using f a by (simp add: c checkAchievements_eq Let_def)
qed

theorem C4_witness:
  "processTaskCompletion ''t3'' [createDummyTask ''t3'' Rank_S 100] brinkState (Some 2000) 0
     = Some brinkResult \<and>
   map ach_id (achievementsUnlocked brinkResult) =
     [''FIRST_BLOOD'', ''COMBO_MASTER'', ''LEGENDARY'', ''VETERAN''] \<and>
   map unlockedAt (achievementsUnlocked brinkResult) =
     [Some 2000, Some 2000, Some 2000, Some 2000] \<and>
   achievements (newState brinkResult) = achievements brinkState @ achievementsUnlocked brinkResult"
proof -
  have lv: "level (newState brinkResult) = 3" "count (combo (newState brinkResult)) = 3"
       "completedTasks brinkState = 0" "achievements brinkState = []"
    by (simp_all add: brinkResult_def brinkState_def)
  from C4_achievement_rules[OF brink_eval] have
    "achievementsUnlocked brinkResult =
       [\<lparr>ach_id = ''FIRST_BLOOD'', icon = icon_FIRST_BLOOD, unlockedAt = Some 2000\<rparr>,
        \<lparr>ach_id = ''COMBO_MASTER'', icon = icon_COMBO_MASTER, unlockedAt = Some 2000\<rparr>,
        \<lparr>ach_id = ''LEGENDARY'', icon = icon_LEGENDARY, unlockedAt = Some 2000\<rparr>,
        \<lparr>ach_id = ''VETERAN'', icon = icon_VETERAN, unlockedAt = Some 2000\<rparr>] \<and>
     achievements (newState brinkResult) = achievements brinkState @ achievementsUnlocked brinkResult"
    by (simp add: lv find_createDummyTask Let_def) (simp add: createDummyTask_def)
  then show ?thesis using brink_eval by simp
qed

section \<open>Claim C5: the null result\<close>

text \<open>
  C5. \<open>processTaskCompletion\<close> returns null exactly when no task of the list has the
  given id or the matched task (the first with that id) is already completed; and a
  second call with the same id on the task list returned by a successful call returns
  null, whatever snapshot and time it is given. The function has no \<open>throw\<close> and no
  partial operation: the model is a total function into \<open>option\<close>.
\<close>

theorem C5_null_result:
  "((processTaskCompletion taskId tasks s ts dateNow = None) =
      ((\<forall>t \<in> set tasks. task_id t \<noteq> taskId) \<or>
       (\<exists>t. find (\<lambda>t. task_id t = taskId) tasks = Some t \<and> completed t))) \<and>
   (\<forall>r. processTaskCompletion taskId tasks s ts dateNow = Some r \<longrightarrow>
      (\<forall>s' ts' dateNow'. processTaskCompletion taskId (newTasks r) s' ts' dateNow' = None))"
proof (intro conjI allI impI)
  show "(processTaskCompletion taskId tasks s ts dateNow = None) =
      ((\<forall>t \<in> set tasks. task_id t \<noteq> taskId) \<or>
       (\<exists>t. find (\<lambda>t. task_id t = taskId) tasks = Some t \<and> completed t))"
  proof (cases "find (\<lambda>t. task_id t = taskId) tasks")
    case None
    then have "\<forall>t \<in> set tasks. task_id t \<noteq> taskId" by (rule find_task_None)
    with None show ?thesis by (simp add: processTaskCompletion_def)
  next
    case (Some task)
    then have "task \<in> set tasks \<and> task_id task = taskId" by (rule find_task_SomeD)
    with Some show ?thesis
      by (auto simp: processTaskCompletion_def Let_def split: prod.splits)
  qed
next
  fix r s' ts' dateNow'
  assume a: "processTaskCompletion taskId tasks s ts dateNow = Some r"
  then obtain task where f: "find (\<lambda>t. task_id t = taskId) tasks = Some task"
    and nc: "\<not> completed task"
    by (rule processTaskCompletion_Some_task)
  from a have nt: "newTasks r =
      map (\<lambda>t. if task_id t = taskId then t\<lparr>completed := True\<rparr> else t) tasks"
    unfolding processTaskCompletion_found[OF f nc] by auto
  show "processTaskCompletion taskId (newTasks r) s' ts' dateNow' = None"
    unfolding nt processTaskCompletion_def[of taskId "map _ _"] find_map_completed[OF f]
    by simp
qed

theorem C5_witness:
  "processTaskCompletion ''t9'' [createDummyTask ''t1'' Rank_B 100] createInitialState (Some 1000) 0
     = None \<and>
   (\<exists>r. processTaskCompletion ''t1'' [createDummyTask ''t1'' Rank_B 100] createInitialState
           (Some 1000) 0 = Some r \<and>
        processTaskCompletion ''t1'' (newTasks r) (newState r) (Some 2000) 0 = None)"
proof -
  obtain r where e:
    "processTaskCompletion ''t1'' [createDummyTask ''t1'' Rank_B 100] createInitialState
       (Some 1000) 0 = Some r"
    using single_task_returns by blast
  have "processTaskCompletion ''t9'' [createDummyTask ''t1'' Rank_B 100] createInitialState
          (Some 1000) 0 = None"
    using C5_null_result[of "''t9''" "[createDummyTask ''t1'' Rank_B 100]" createInitialState
        "Some 1000" 0]
    by (simp add: createDummyTask_def)
  moreover have "processTaskCompletion ''t1'' (newTasks r) (newState r) (Some 2000) 0 = None"
    using C5_null_result[of "''t1''" "[createDummyTask ''t1'' Rank_B 100]" createInitialState
        "Some 1000" 0] e
    by blast
  ultimately show ?thesis using e by blast
qed

section \<open>Claim C6: the inputs are not mutated\<close>

text \<open>
  C6, as stated, fails in its last part: the returned list differs from the input in
  more than the matched task when the id occurs more than once. \<open>find\<close> matches the
  first task with the id, \<open>map\<close> sets \<open>completed\<close> on every task with the id: completing
  \<open>t1\<close> on a list whose first and third task both have the id \<open>t1\<close> returns a list in
  which the third task is completed too.
\<close>

theorem C6_counterexample:
  "\<exists>r. processTaskCompletion ''t1'' duplicateTasks createInitialState (Some 1000) 0 = Some r \<and>
       find (\<lambda>t. task_id t = ''t1'') duplicateTasks = Some (duplicateTasks ! 0) \<and>
       map completed duplicateTasks = [False, False, False] \<and>
       map completed (newTasks r) = [True, False, True] \<and>
       newTasks r \<noteq> duplicateTasks[0 := (duplicateTasks ! 0)\<lparr>completed := True\<rparr>]"
proof -
  have f: "find (\<lambda>t. task_id t = ''t1'') duplicateTasks = Some (createDummyTask ''t1'' Rank_B 100)"
    by (simp add: duplicateTasks_def createDummyTask_def)
  from processTaskCompletion_returns[OF f createDummyTask_open] obtain r where
    r: "processTaskCompletion ''t1'' duplicateTasks createInitialState (Some 1000) 0 = Some r"
    by blast
  note nt = processTaskCompletion_newTasks[OF r]
  have 1: "find (\<lambda>t. task_id t = ''t1'') duplicateTasks = Some (duplicateTasks ! 0)"
    by (simp add: duplicateTasks_def createDummyTask_def)
  have 2: "map completed duplicateTasks = [False, False, False]"
    by (simp add: duplicateTasks_def createDummyTask_def)
  have 3: "map completed (newTasks r) = [True, False, True]"
    unfolding nt by (simp add: duplicateTasks_def createDummyTask_def)
  have 4: "newTasks r \<noteq> duplicateTasks[0 := (duplicateTasks ! 0)\<lparr>completed := True\<rparr>]"
    unfolding nt by (simp add: duplicateTasks_def createDummyTask_def)
  from r 1 2 3 4 show ?thesis by (intro exI[of _ r] conjI)
qed

text \<open>
  C6, amended. \<open>processTaskCompletion\<close> never mutates its inputs: run on any store in
  which \<open>currentTasks\<close> holds a task list and \<open>currentState\<close> a snapshot, it returns, and
  the store it leaves extends the old one: every cell that existed before the call (the
  input array, its task objects, the snapshot and everything it refers to) is unchanged,
  so the inputs read back as before, on the null path (where the store is not touched at
  all) and on the non-null path. The result read back from the new store is the result
  of the functional model; its task list has the length and order of the input, each
  entry being the input's entry, with \<open>completed\<close> set true on every task whose id is
  \<open>taskId\<close>; when the ids of the list are pairwise different, that is the input list with
  the one matched task replaced.
\<close>

theorem C6_inputs_not_mutated:
  assumes tl: "task_list_at h currentTasks = Some tasks"
      and st: "state_at h currentState = Some s"
  shows "\<exists>res h'.
     processTaskCompletion_h taskId currentTasks currentState ts dateNow h = Some (res, h') \<and>
     prefix h h' \<and>
     task_list_at h' currentTasks = Some tasks \<and>
     state_at h' currentState = Some s \<and>
     (case res of
        None \<Rightarrow> h' = h \<and> processTaskCompletion taskId tasks s ts dateNow = None
      | Some a \<Rightarrow>
          (\<exists>r. processTaskCompletion taskId tasks s ts dateNow = Some r \<and>
               result_at h' a = Some r \<and>
               length (newTasks r) = length tasks \<and>
               (\<forall>i < length tasks.
                  newTasks r ! i =
                    (if task_id (tasks ! i) = taskId then (tasks ! i)\<lparr>completed := True\<rparr>
                     else tasks ! i)) \<and>
               (\<exists>i < length tasks.
                  find (\<lambda>t. task_id t = taskId) tasks = Some (tasks ! i) \<and>
                  (distinct (map task_id tasks) \<longrightarrow>
                     newTasks r = tasks[i := (tasks ! i)\<lparr>completed := True\<rparr>]))))"
proof -
  from processTaskCompletion_h_refines[OF tl st, of taskId ts dateNow] obtain res cs where
    run: "processTaskCompletion_h taskId currentTasks currentState ts dateNow h = Some (res, h @ cs)"
    and post: "case res of
              None \<Rightarrow> cs = [] \<and> processTaskCompletion taskId tasks s ts dateNow = None
            | Some a \<Rightarrow> (\<exists>r. processTaskCompletion taskId tasks s ts dateNow = Some r \<and>
                             result_at (h @ cs) a = Some r)"
    by blast
  have p: "prefix h (h @ cs)" by simp
  note tl' = task_list_at_prefix[OF tl p]
  note st' = state_at_prefix[OF st p]
  show ?thesis
  proof (cases res)
    case None
    with post have c: "case res of
        None \<Rightarrow> h @ cs = h \<and> processTaskCompletion taskId tasks s ts dateNow = None
      | Some a \<Rightarrow>
          (\<exists>r. processTaskCompletion taskId tasks s ts dateNow = Some r \<and>
               result_at (h @ cs) a = Some r \<and>
               length (newTasks r) = length tasks \<and>
               (\<forall>i < length tasks.
                  newTasks r ! i =
                    (if task_id (tasks ! i) = taskId then (tasks ! i)\<lparr>completed := True\<rparr>
                     else tasks ! i)) \<and>
               (\<exists>i < length tasks.
                  find (\<lambda>t. task_id t = taskId) tasks = Some (tasks ! i) \<and>
                  (distinct (map task_id tasks) \<longrightarrow>
                     newTasks r = tasks[i := (tasks ! i)\<lparr>completed := True\<rparr>])))"
      by simp
    from run p tl' st' c show ?thesis
      by (intro exI[of _ res] exI[of _ "h @ cs"] conjI)
  next
    case (Some a)
    with post obtain r where r: "processTaskCompletion taskId tasks s ts dateNow = Some r"
      and d: "result_at (h @ cs) a = Some r"
      by auto
    note nt = processTaskCompletion_newTasks[OF r]
    have len: "length (newTasks r) = length tasks" by (simp add: nt)
    have pw: "\<forall>i < length tasks.
                  newTasks r ! i =
                    (if task_id (tasks ! i) = taskId then (tasks ! i)\<lparr>completed := True\<rparr>
                     else tasks ! i)"
      by (simp add: nt)
    from r obtain task where f: "find (\<lambda>t. task_id t = taskId) tasks = Some task"
      by (rule processTaskCompletion_Some_task)
    from find_task_index[OF f] obtain i where i: "i < length tasks" and ti: "tasks ! i = task"
      and tid: "task_id task = taskId"
      by blast
    have "distinct (map task_id tasks) \<longrightarrow>
            newTasks r = tasks[i := (tasks ! i)\<lparr>completed := True\<rparr>]"
      unfolding nt using map_completed_distinct[OF _ i, of taskId] ti tid by simp
    with i f ti have ex: "\<exists>i < length tasks.
                  find (\<lambda>t. task_id t = taskId) tasks = Some (tasks ! i) \<and>
                  (distinct (map task_id tasks) \<longrightarrow>
                     newTasks r = tasks[i := (tasks ! i)\<lparr>completed := True\<rparr>])"
      by auto
    have c: "case res of
        None \<Rightarrow> h @ cs = h \<and> processTaskCompletion taskId tasks s ts dateNow = None
      | Some a \<Rightarrow>
          (\<exists>r. processTaskCompletion taskId tasks s ts dateNow = Some r \<and>
               result_at (h @ cs) a = Some r \<and>
               length (newTasks r) = length tasks \<and>
               (\<forall>i < length tasks.
                  newTasks r ! i =
                    (if task_id (tasks ! i) = taskId then (tasks ! i)\<lparr>completed := True\<rparr>
                     else tasks ! i)) \<and>
               (\<exists>i < length tasks.
                  find (\<lambda>t. task_id t = taskId) tasks = Some (tasks ! i) \<and>
                  (distinct (map task_id tasks) \<longrightarrow>
                     newTasks r = tasks[i := (tasks ! i)\<lparr>completed := True\<rparr>])))"
      unfolding Some option.case using r d len pw ex by (intro exI[of _ r] conjI)
    from run p tl' st' c show ?thesis
      by (intro exI[of _ res] exI[of _ "h @ cs"] conjI)
  qed
qed

theorem C6_witness:
  "task_list_at sampleStore 2 = Some sampleTasks \<and>
   state_at sampleStore 6 = Some createInitialState \<and>
   distinct (map task_id sampleTasks) \<and>
   (\<exists>a h' r.
      processTaskCompletion_h ''t2'' 2 6 (Some 1000) 0 sampleStore = Some (Some a, h') \<and>
      prefix sampleStore h' \<and>
      task_list_at h' 2 = Some sampleTasks \<and>
      state_at h' 6 = Some createInitialState \<and>
      result_at h' a = Some r \<and>
      length (newTasks r) = 2 \<and>
      newTasks r ! 0 = sampleTasks ! 0 \<and>
      newTasks r ! 1 = (sampleTasks ! 1)\<lparr>completed := True\<rparr> \<and>
      newTasks r = sampleTasks[1 := (sampleTasks ! 1)\<lparr>completed := True\<rparr>])"
proof -
  have f: "find (\<lambda>t. task_id t = ''t2'') sampleTasks = Some (createDummyTask ''t2'' Rank_S 500)"
    by (simp add: sampleTasks_def createDummyTask_def)
  from processTaskCompletion_returns[OF f createDummyTask_open]
  have some: "processTaskCompletion ''t2'' sampleTasks createInitialState (Some 1000) 0 \<noteq> None"
    by simp
  have ids: "task_id (sampleTasks ! 0) \<noteq> ''t2''" "task_id (sampleTasks ! 1) = ''t2''"
    "length sampleTasks = 2"
    by (simp_all add: sampleTasks_def createDummyTask_def)
  have dist: "distinct (map task_id sampleTasks)"
    by (simp add: sampleTasks_def createDummyTask_def)
  from C6_inputs_not_mutated[OF sample_tasks_at sample_state_at, of "''t2''" "Some 1000" 0]
  obtain res h' where
    run: "processTaskCompletion_h ''t2'' 2 6 (Some 1000) 0 sampleStore = Some (res, h')" and
    p: "prefix sampleStore h'" and
    tl: "task_list_at h' 2 = Some sampleTasks" and
    st: "state_at h' 6 = Some createInitialState" and
    post: "case res of
        None \<Rightarrow> h' = sampleStore \<and>
                processTaskCompletion ''t2'' sampleTasks createInitialState (Some 1000) 0 = None
      | Some a \<Rightarrow>
          (\<exists>r. processTaskCompletion ''t2'' sampleTasks createInitialState (Some 1000) 0 = Some r \<and>
               result_at h' a = Some r \<and>
               length (newTasks r) = length sampleTasks \<and>
               (\<forall>i < length sampleTasks.
                  newTasks r ! i =
                    (if task_id (sampleTasks ! i) = ''t2''
                     then (sampleTasks ! i)\<lparr>completed := True\<rparr>
                     else sampleTasks ! i)) \<and>
               (\<exists>i < length sampleTasks.
                  find (\<lambda>t. task_id t = ''t2'') sampleTasks = Some (sampleTasks ! i) \<and>
                  (distinct (map task_id sampleTasks) \<longrightarrow>
                     newTasks r = sampleTasks[i := (sampleTasks ! i)\<lparr>completed := True\<rparr>])))"
    by blast
  from post some obtain a r i where res: "res = Some a" and
    d: "result_at h' a = Some r" and
    len: "length (newTasks r) = length sampleTasks" and
    pw: "\<forall>i < length sampleTasks.
                  newTasks r ! i =
                    (if task_id (sampleTasks ! i) = ''t2''
                     then (sampleTasks ! i)\<lparr>completed := True\<rparr>
                     else sampleTasks ! i)" and
    i: "i < length sampleTasks" and
    fi: "find (\<lambda>t. task_id t = ''t2'') sampleTasks = Some (sampleTasks ! i)" and
    up: "distinct (map task_id sampleTasks) \<longrightarrow>
           newTasks r = sampleTasks[i := (sampleTasks ! i)\<lparr>completed := True\<rparr>]"
    by (cases res) auto
  from find_task_SomeD[OF fi] have "task_id (sampleTasks ! i) = ''t2''" by simp
  with i ids have i1: "i = 1" by (cases i) auto
  from up dist i1 have eq: "newTasks r = sampleTasks[1 := (sampleTasks ! 1)\<lparr>completed := True\<rparr>]"
    by simp
  from pw ids have n0: "newTasks r ! 0 = sampleTasks ! 0"
    and n1: "newTasks r ! 1 = (sampleTasks ! 1)\<lparr>completed := True\<rparr>"
    by auto
  from run res p tl st d len ids(3) n0 n1 eq dist sample_tasks_at sample_state_at show ?thesis
    by (intro conjI exI[of _ a] exI[of _ h'] exI[of _ r]) simp_all
qed

section \<open>Claim C7: the contents of a completion result\<close>

text \<open>
  C7. Every non-null result holds the new snapshot with \<open>completedTasks\<close> one more than
  before, \<open>comboTriggered\<close> true iff the new combo count exceeds 1, \<open>xpGained\<close> equal to
  the awarded XP \<open>floor (xp * multiplier)\<close> (the double product of the task's XP and the
  new snapshot's multiplier), and in \<open>achievementsUnlocked\<close> only new
  achievements: the accumulated list is the old list followed by exactly that list, and
  none of its ids was in the old list. A null call produces no snapshot and, run on a
  store, leaves the store as it was: the caller's snapshot, \<open>completedTasks\<close> included,
  is untouched.
\<close>

theorem C7_completion_result:
  "(\<forall>r. processTaskCompletion taskId tasks s ts dateNow = Some r \<longrightarrow>
      completedTasks (newState r) = completedTasks s + 1 \<and>
      comboTriggered r = (count (combo (newState r)) > 1) \<and>
      (\<exists>task. find (\<lambda>t. task_id t = taskId) tasks = Some task \<and>
         xpGained r = \<lfloor>dmul (of_int (xp task)) (multiplier (combo (newState r)))\<rfloor>) \<and>
      achievements (newState r) = achievements s @ achievementsUnlocked r \<and>
      set (map ach_id (achievementsUnlocked r)) \<inter> set (map ach_id (achievements s)) = {}) \<and>
   (processTaskCompletion taskId tasks s ts dateNow = None \<longrightarrow>
      (\<forall>h currentTasks currentState.
         task_list_at h currentTasks = Some tasks \<and> state_at h currentState = Some s \<longrightarrow>
         processTaskCompletion_h taskId currentTasks currentState ts dateNow h = Some (None, h)))"
proof (intro conjI allI impI)
  fix r
  assume a: "processTaskCompletion taskId tasks s ts dateNow = Some r"
  from a obtain task where f: "find (\<lambda>t. task_id t = taskId) tasks = Some task"
    and nc: "\<not> completed task"
    by (rule processTaskCompletion_Some_task)
  from a have r: "r = the (processTaskCompletion taskId tasks s ts dateNow)" by simp
  show "completedTasks (newState r) = completedTasks s + 1"
    unfolding r processTaskCompletion_found[OF f nc] by simp
  show "comboTriggered r = (count (combo (newState r)) > 1)"
    unfolding r processTaskCompletion_found[OF f nc] by simp
  have "xpGained r = \<lfloor>dmul (of_int (xp task)) (multiplier (combo (newState r)))\<rfloor>"
    unfolding r processTaskCompletion_found[OF f nc] by simp
  with f show "\<exists>task. find (\<lambda>t. task_id t = taskId) tasks = Some task \<and>
         xpGained r = \<lfloor>dmul (of_int (xp task)) (multiplier (combo (newState r)))\<rfloor>"
    by blast
  show "achievements (newState r) = achievements s @ achievementsUnlocked r"
    by (rule processTaskCompletion_unlocks(2)[OF a f])
  show "set (map ach_id (achievementsUnlocked r)) \<inter> set (map ach_id (achievements s)) = {}"
    using checkAchievements_fresh[of "(newState r)\<lparr>achievements := achievements s\<rparr>"]
    unfolding processTaskCompletion_unlocks(1)[OF a f] by simp
next
  fix h currentTasks currentState
  assume n: "processTaskCompletion taskId tasks s ts dateNow = None"
    and w: "task_list_at h currentTasks = Some tasks \<and> state_at h currentState = Some s"
  from w have tl: "task_list_at h currentTasks = Some tasks"
    and st: "state_at h currentState = Some s"
    by simp_all
  from processTaskCompletion_h_refines[OF tl st, of taskId ts dateNow] obtain res cs where
    run: "processTaskCompletion_h taskId currentTasks currentState ts dateNow h = Some (res, h @ cs)"
    and post: "case res of
              None \<Rightarrow> cs = [] \<and> processTaskCompletion taskId tasks s ts dateNow = None
            | Some a \<Rightarrow> (\<exists>r. processTaskCompletion taskId tasks s ts dateNow = Some r \<and>
                             result_at (h @ cs) a = Some r)"
    by blast
  from post n have "res = None \<and> cs = []" by (cases res) auto
  with run show "processTaskCompletion_h taskId currentTasks currentState ts dateNow h
                   = Some (None, h)"
    by simp
qed

theorem C7_witness:
  "processTaskCompletion ''t3'' [createDummyTask ''t3'' Rank_B 100] chainedState (Some 7000) 0
     = Some chainedResult \<and>
   completedTasks (newState chainedResult) = completedTasks chainedState + 1 \<and>
   comboTriggered chainedResult \<and> xpGained chainedResult = 130 \<and>
   achievements (newState chainedResult)
     = achievements chainedState @ achievementsUnlocked chainedResult \<and>
   length (achievementsUnlocked chainedResult) = 1 \<and>
   length (achievements (newState chainedResult)) = 2 \<and>
   processTaskCompletion ''t3'' sampleTasks createInitialState (Some 1000) 0 = None \<and>
   processTaskCompletion_h ''t3'' 2 6 (Some 1000) 0 sampleStore = Some (None, sampleStore)"
proof -
  have cc: "count (combo (newState chainedResult)) = 3"
       "multiplier (combo (newState chainedResult)) = 5854679515581645 / 4503599627370496"
       "length (achievementsUnlocked chainedResult) = 1"
       "length (achievements (newState chainedResult)) = 2"
    by (simp_all add: chainedResult_def)
  from C7_completion_result[of "''t3''" "[createDummyTask ''t3'' Rank_B 100]" chainedState
         "Some 7000" 0] chained_eval
  have 1: "completedTasks (newState chainedResult) = completedTasks chainedState + 1 \<and>
     comboTriggered chainedResult \<and> xpGained chainedResult = 130 \<and>
     achievements (newState chainedResult)
       = achievements chainedState @ achievementsUnlocked chainedResult"
    by (simp add: cc find_createDummyTask) (simp add: createDummyTask_def finalXp_100_at_3)
  have n: "processTaskCompletion ''t3'' sampleTasks createInitialState (Some 1000) 0 = None"
    by (simp add: processTaskCompletion_def sampleTasks_def createDummyTask_def)
  from C7_completion_result[of "''t3''" sampleTasks createInitialState "Some 1000" 0] n
    sample_tasks_at sample_state_at
  have 2: "processTaskCompletion_h ''t3'' 2 6 (Some 1000) 0 sampleStore = Some (None, sampleStore)"
    by blast
  from 1 2 n chained_eval cc show ?thesis by simp
qed

section \<open>Claim C8: the momentum update\<close>




section \<open>Claim C9: the achievement list only grows\<close>

text \<open>
  C9. After a non-null completion the old achievement list is a prefix of the new one:
  every old entry is still there, at its position, unchanged; and if the old list had
  no two entries with the same id, neither has the new one.
\<close>

theorem C9_achievements_grow:
  assumes "processTaskCompletion taskId tasks s ts dateNow = Some r"
  shows "prefix (achievements s) (achievements (newState r)) \<and>
         (\<forall>i < length (achievements s). achievements (newState r) ! i = achievements s ! i) \<and>
         set (achievements s) \<subseteq> set (achievements (newState r)) \<and>
         (distinct (map ach_id (achievements s)) \<longrightarrow>
            distinct (map ach_id (achievements (newState r))))"
proof -
  from assms obtain task where f: "find (\<lambda>t. task_id t = taskId) tasks = Some task"
    by (rule processTaskCompletion_Some_task)
  note a = processTaskCompletion_unlocks(2)[OF assms f]
  note c = processTaskCompletion_unlocks(1)[OF assms f]
  have d: "set (map ach_id (achievementsUnlocked r)) \<inter> set (map ach_id (achievements s)) = {}"
    using checkAchievements_fresh[of "(newState r)\<lparr>achievements := achievements s\<rparr>"]
    unfolding c by simp
  have e: "distinct (map ach_id (achievementsUnlocked r))"
    unfolding c by (rule checkAchievements_distinct)
  show ?thesis using a d e by (auto simp: nth_append)
qed

theorem C9_witness:
  "\<exists>r. processTaskCompletion ''t3'' [createDummyTask ''t3'' Rank_S 100] chainedState (Some 7000) 0
          = Some r \<and>
       distinct (map ach_id (achievements chainedState)) \<and>
       prefix (achievements chainedState) (achievements (newState r)) \<and>
       achievements (newState r) ! 0 = achievements chainedState ! 0 \<and>
       distinct (map ach_id (achievements (newState r)))"
proof -
  obtain r where e:
    "processTaskCompletion ''t3'' [createDummyTask ''t3'' Rank_S 100] chainedState (Some 7000) 0 = Some r"
    using single_task_returns by blast
  have d: "distinct (map ach_id (achievements chainedState))"
    by (simp add: chainedState_def)
  have l: "0 < length (achievements chainedState)"
    by (simp add: chainedState_def)
  from C9_achievements_grow[OF e] d l have
    "prefix (achievements chainedState) (achievements (newState r)) \<and>
       achievements (newState r) ! 0 = achievements chainedState ! 0 \<and>
       distinct (map ach_id (achievements (newState r)))"
    by blast
  with e d show ?thesis by blast
qed

section \<open>Claim C10: a supplied timestamp of 0\<close>

text \<open>
  C10. When the caller supplies timestamp 0, that value is the event time whatever the
  clock reads: the returned snapshot records \<open>lastCompletionTime = 0\<close>, the result does
  not depend on the clock, and every later completion from that snapshot resets the
  combo to count 1 and multiplier 1, whatever its own timestamp.
\<close>

theorem C10_timestamp_zero:
  assumes "processTaskCompletion taskId tasks s (Some 0) dateNow = Some r"
  shows "lastCompletionTime (combo (newState r)) = 0 \<and>
         (\<forall>dateNow'. processTaskCompletion taskId tasks s (Some 0) dateNow' = Some r) \<and>
         (\<forall>taskId' tasks' ts' dateNow' r'.
            processTaskCompletion taskId' tasks' (newState r) ts' dateNow' = Some r' \<longrightarrow>
            count (combo (newState r')) = 1 \<and> multiplier (combo (newState r')) = 1)"
proof (intro conjI allI impI)
  from assms obtain task where f: "find (\<lambda>t. task_id t = taskId) tasks = Some task"
    and nc: "\<not> completed task"
    by (rule processTaskCompletion_Some_task)
  from assms have r: "r = the (processTaskCompletion taskId tasks s (Some 0) dateNow)" by simp
  show z: "lastCompletionTime (combo (newState r)) = 0"
    unfolding r processTaskCompletion_found[OF f nc] by simp
  show "processTaskCompletion taskId tasks s (Some 0) dateNow' = Some r" for dateNow'
    using assms unfolding processTaskCompletion_def option.case by assumption
  fix taskId' tasks' ts' dateNow' r'
  assume a: "processTaskCompletion taskId' tasks' (newState r) ts' dateNow' = Some r'"
  then obtain task' where f': "find (\<lambda>t. task_id t = taskId') tasks' = Some task'"
    and nc': "\<not> completed task'"
    by (rule processTaskCompletion_Some_task)
  from a have r': "r' = the (processTaskCompletion taskId' tasks' (newState r) ts' dateNow')"
    by simp
  show "count (combo (newState r')) = 1"
    unfolding r' processTaskCompletion_found[OF f' nc'] by (simp add: z)
  show "multiplier (combo (newState r')) = 1"
    unfolding r' processTaskCompletion_found[OF f' nc'] by (simp add: z)
qed

theorem C10_witness:
  "\<exists>r r'. processTaskCompletion ''t1'' [createDummyTask ''t1'' Rank_B 100] chainedState (Some 0) 777
             = Some r \<and>
          lastCompletionTime (combo (newState r)) = 0 \<and>
          processTaskCompletion ''t2'' [createDummyTask ''t2'' Rank_B 100] (newState r) (Some 5) 0
             = Some r' \<and>
          count (combo (newState r')) = 1 \<and> multiplier (combo (newState r')) = 1"
proof -
  obtain r where e:
    "processTaskCompletion ''t1'' [createDummyTask ''t1'' Rank_B 100] chainedState (Some 0) 777 = Some r"
    using single_task_returns by blast
  obtain r' where e':
    "processTaskCompletion ''t2'' [createDummyTask ''t2'' Rank_B 100] (newState r) (Some 5) 0 = Some r'"
    using single_task_returns by blast
  from C10_timestamp_zero[OF e] e' have
    "lastCompletionTime (combo (newState r)) = 0 \<and>
     count (combo (newState r')) = 1 \<and> multiplier (combo (newState r')) = 1"
    by blast
  with e e' show ?thesis by blast
qed

end
